theory Spec2Isabelle
  imports Main
begin

section \<open>Plate validation (class PlateValidator)\<close>

text \<open>
  Strings are ASCII text: Python's \<open>str.upper\<close> and \<open>str.strip\<close> are modelled on the
  ASCII range, where they map \<open>a..z\<close> to \<open>A..Z\<close> and remove the white-space characters
  9..13 and 28..32 from both ends.
\<close>

definition is_upper :: "char \<Rightarrow> bool" where
  "is_upper c = (65 \<le> (of_char c :: nat) \<and> (of_char c :: nat) \<le> 90)"

definition is_lower :: "char \<Rightarrow> bool" where
  "is_lower c = (97 \<le> (of_char c :: nat) \<and> (of_char c :: nat) \<le> 122)"

definition is_digit :: "char \<Rightarrow> bool" where
  "is_digit c = (48 \<le> (of_char c :: nat) \<and> (of_char c :: nat) \<le> 57)"

definition is_space :: "char \<Rightarrow> bool" where
  "is_space c = ((9 \<le> (of_char c :: nat) \<and> (of_char c :: nat) \<le> 13)
                 \<or> (28 \<le> (of_char c :: nat) \<and> (of_char c :: nat) \<le> 32))"

definition upper_char :: "char \<Rightarrow> char" where
  "upper_char c = (if is_lower c then char_of ((of_char c :: nat) - 32) else c)"

definition upper :: "string \<Rightarrow> string" where
  "upper s = map upper_char s"

definition strip :: "string \<Rightarrow> string" where
  "strip s = rev (dropWhile is_space (rev (dropWhile is_space s)))"

text \<open>
  The three regular expressions of \<open>PLATE_PATTERNS\<close> are sequences of the character
  classes \<open>[A-Z]\<close> and \<open>[0-9]\<close> between \<open>^\<close> and \<open>$\<close>, with the repetition counts
  written out. Python's \<open>$\<close> also matches just before a line feed that ends the string.
\<close>

datatype char_class = Upper | Digit

fun in_class :: "char_class \<Rightarrow> char \<Rightarrow> bool" where
  "in_class Upper c = is_upper c"
| "in_class Digit c = is_digit c"

definition re_match :: "char_class list \<Rightarrow> string \<Rightarrow> bool" where
  "re_match pattern s =
     (list_all2 in_class pattern s
      \<or> (s \<noteq> [] \<and> last s = CHR 0x0A \<and> list_all2 in_class pattern (butlast s)))"

definition PLATE_PATTERNS :: "(string \<times> char_class list) list" where
  "PLATE_PATTERNS =
     [(''mercosul'', [Upper, Upper, Upper, Digit, Upper, Digit, Digit]),
      (''antiga'', [Upper, Upper, Upper, Digit, Digit, Digit, Digit]),
      (''moto_mercosul'', [Upper, Upper, Upper, Digit, Digit, Upper, Digit])]"

text \<open>The loop of \<open>validate_plate\<close> over the items of the pattern table, first match wins.\<close>

fun first_match :: "(string \<times> char_class list) list \<Rightarrow> string \<Rightarrow> bool \<times> string" where
  "first_match [] plate = (False, ''invalid'')"
| "first_match ((plate_type, pattern) # rest) plate =
     (if re_match pattern plate then (True, plate_type) else first_match rest plate)"

definition validate_plate :: "string \<Rightarrow> bool \<times> string" where
  "validate_plate plate = first_match PLATE_PATTERNS (strip (upper plate))"

definition normalize_plate :: "string \<Rightarrow> string" where
  "normalize_plate plate = filter (\<lambda>c. is_upper c \<or> is_digit c) (strip (upper plate))"

text \<open>
  The shapes that the specification names: legacy (3 letters, 4 digits), current
  (3 letters, 1 digit, 1 letter, 2 digits) and two-wheeler-current (3 letters, 2 digits,
  1 letter, 1 digit), written position by position.
\<close>

definition legacy_shape :: "string \<Rightarrow> bool" where
  "legacy_shape s =
     (length s = 7 \<and> list_all is_upper (take 3 s) \<and> list_all is_digit (drop 3 s))"

definition current_shape :: "string \<Rightarrow> bool" where
  "current_shape s =
     (length s = 7 \<and> list_all is_upper (take 3 s) \<and> is_digit (s ! 3)
      \<and> is_upper (s ! 4) \<and> list_all is_digit (drop 5 s))"

definition two_wheeler_shape :: "string \<Rightarrow> bool" where
  "two_wheeler_shape s =
     (length s = 7 \<and> list_all is_upper (take 3 s) \<and> list_all is_digit (take 2 (drop 3 s))
      \<and> is_upper (s ! 5) \<and> is_digit (s ! 6))"

section \<open>Results, HTTP and configuration\<close>

text \<open>
  A result is whatever value the JSON decoder gives: an object (a Python dict, kept as an
  association list with one entry for each key), an array, a string, a number (kept as
  its literal, the code never reads one), a truth value or null. A failure is an object
  with the key \<open>erro\<close>; its kind is the value stored there. The kinds of the source are \<open>payment_required\<close>, \<open>not_found\<close>,
  \<open>rate_limit\<close> (the specification's \<open>rate_limited\<close>), \<open>timeout\<close>, \<open>http_error\<close>,
  \<open>api_error\<close> (the specification's \<open>upstream_error\<close>) and \<open>all_apis_failed\<close> (the
  specification's \<open>all_sources_failed\<close>). The message texts are kept in ASCII, without
  the pictographs and accents of the source.
\<close>

datatype jval = JNull | JBool bool | JNum string | JStr string
  | JArr "jval list" | JObj "(string \<times> jval) list"

type_synonym dict = "(string \<times> jval) list"

datatype exn = TimeoutException | HTTPStatusError nat | TypeError | KeyError
  | AttributeError | OtherException

definition has_key :: "dict \<Rightarrow> string \<Rightarrow> bool" where
  "has_key d k = (map_of d k \<noteq> None)"

fun is_substring :: "string \<Rightarrow> string \<Rightarrow> bool" where
  "is_substring sub [] = (sub = [])"
| "is_substring sub (c # cs) = (take (length sub) (c # cs) = sub \<or> is_substring sub cs)"

text \<open>
  The Python test \<open>"erro" in x\<close>: a key of a dict, an element of a list, a substring of a
  string; on null, a truth value or a number it raises \<open>TypeError\<close>.
\<close>

fun erro_in :: "jval \<Rightarrow> exn + bool" where
  "erro_in (JObj d) = Inr (has_key d ''erro'')"
| "erro_in (JArr xs) = Inr (JStr ''erro'' \<in> set xs)"
| "erro_in (JStr s) = Inr (is_substring ''erro'' s)"
| "erro_in JNull = Inl TypeError"
| "erro_in (JBool b) = Inl TypeError"
| "erro_in (JNum n) = Inl TypeError"

text \<open>The Python read \<open>x["erro"]\<close>: the value of the key in a dict, \<open>TypeError\<close> elsewhere.\<close>

fun getitem_erro :: "jval \<Rightarrow> exn + jval" where
  "getitem_erro (JObj d) = (case map_of d ''erro'' of None \<Rightarrow> Inl KeyError | Some v \<Rightarrow> Inr v)"
| "getitem_erro (JArr xs) = Inl TypeError"
| "getitem_erro (JStr s) = Inl TypeError"
| "getitem_erro JNull = Inl TypeError"
| "getitem_erro (JBool b) = Inl TypeError"
| "getitem_erro (JNum n) = Inl TypeError"

text \<open>The kind of a failure: the value under \<open>erro\<close> of an object, nothing for any other value.\<close>

fun erro_kind :: "jval \<Rightarrow> jval option" where
  "erro_kind (JObj d) = map_of d ''erro''"
| "erro_kind (JArr xs) = None"
| "erro_kind (JStr s) = None"
| "erro_kind JNull = None"
| "erro_kind (JBool b) = None"
| "erro_kind (JNum n) = None"

text \<open>A Record: an object without the key \<open>erro\<close>.\<close>

fun is_record :: "jval \<Rightarrow> bool" where
  "is_record (JObj d) = (\<not> has_key d ''erro'')"
| "is_record (JArr xs) = False"
| "is_record (JStr s) = False"
| "is_record JNull = False"
| "is_record (JBool b) = False"
| "is_record (JNum n) = False"

definition failure :: "string \<Rightarrow> string \<Rightarrow> jval" where
  "failure kind message = JObj [(''erro'', JStr kind), (''message'', JStr message)]"

function show_nat :: "nat \<Rightarrow> string" where
  "show_nat n =
     (if n < 10 then [char_of (48 + n)] else show_nat (n div 10) @ [char_of (48 + n mod 10)])"
  by pat_completeness auto
termination
  by (relation "measure (\<lambda>n. n)") auto

record response =
  status_code :: nat
  json :: "jval option"

type_synonym http_result = "exn + response"

text \<open>
  The environment of one lookup: the three settings read from the process environment
  (\<open>None\<close> when a variable is unset); the outcome of \<open>get_http_client\<close>, which hands out
  the shared HTTP client (\<open>None\<close>) or raises while building it (\<open>Some\<close> of the exception);
  and the network, which answers a GET on a URL with an exception or a response, after
  some seconds. The \<open>json\<close> field of a response is \<open>None\<close> when decoding the body raises.
\<close>

record env =
  API_CONSULTA_URL :: "string option"
  API_CONSULTA_TOKEN :: "string option"
  API_BACKUP_URLS :: "string option list"
  get_http_client :: "exn option"
  http_get :: "string \<Rightarrow> http_result \<times> nat"

fun fmt :: "string option \<Rightarrow> string" where
  "fmt None = ''None''"
| "fmt (Some s) = s"

datatype event = Call_validate string | Call_principal string | Call_backup string
  | Http_get string

text \<open>
  Modelled from the spec: \<open>raise_for_status\<close> of the HTTP client library, which is not part of
  the repository; it raises the status error for every status outside 200..299.
\<close>

definition is_success :: "nat \<Rightarrow> bool" where
  "is_success code = (200 \<le> code \<and> code \<le> 299)"

section \<open>The three caches\<close>

text \<open>
  Modelled from the spec: the class \<open>TTLCache\<close> of the cache library, which is not part of the
  repository. A cache is the list of its entries (key, value, expiry time) in insertion
  order. A read finds an entry only before its expiry time; a write first drops the
  expired entries, then replaces the entry of the key or, for a new key in a full cache,
  evicts the oldest entries, and the written entry expires one time-to-live later.
\<close>

type_synonym cache = "(string \<times> jval \<times> nat) list"

definition cache_getitem :: "cache \<Rightarrow> nat \<Rightarrow> string \<Rightarrow> jval option" where
  "cache_getitem c now k =
     (case map_of c k of
        None \<Rightarrow> None
      | Some (v, expires) \<Rightarrow> if now < expires then Some v else None)"

definition cache_contains :: "cache \<Rightarrow> nat \<Rightarrow> string \<Rightarrow> bool" where
  "cache_contains c now k = (cache_getitem c now k \<noteq> None)"

definition cache_setitem :: "nat \<Rightarrow> nat \<Rightarrow> cache \<Rightarrow> nat \<Rightarrow> string \<Rightarrow> jval \<Rightarrow> cache" where
  "cache_setitem maxsize ttl c now k v =
     (let live = filter (\<lambda>(k', v', expires). now < expires) c;
          kept = (if map_of live k \<noteq> None then filter (\<lambda>(k', v', expires). k' \<noteq> k) live
                  else drop (Suc (length live) - maxsize) live)
      in kept @ [(k, v, now + ttl)])"

record state =
  cache_principal :: cache
  cache_erros :: cache
  cache_inline :: cache
  clock :: nat

definition initial_state :: state where
  "initial_state = \<lparr>cache_principal = [], cache_erros = [], cache_inline = [], clock = 0\<rparr>"

definition set_principal :: "state \<Rightarrow> nat \<Rightarrow> string \<Rightarrow> jval \<Rightarrow> state" where
  "set_principal st now k v =
     st\<lparr>cache_principal := cache_setitem 500 1800 (cache_principal st) now k v, clock := now\<rparr>"

definition set_erros :: "state \<Rightarrow> nat \<Rightarrow> string \<Rightarrow> jval \<Rightarrow> state" where
  "set_erros st now k v =
     st\<lparr>cache_erros := cache_setitem 100 300 (cache_erros st) now k v, clock := now\<rparr>"

definition set_inline :: "state \<Rightarrow> string \<Rightarrow> jval \<Rightarrow> state" where
  "set_inline st k v =
     st\<lparr>cache_inline := cache_setitem 200 600 (cache_inline st) (clock st) k v\<rparr>"

section \<open>Lookup with fallback (class APIConsultor)\<close>

definition primary_url :: "env \<Rightarrow> string \<Rightarrow> string" where
  "primary_url e placa =
     fmt (API_CONSULTA_URL e) @ ''/'' @ placa @ ''/'' @ fmt (API_CONSULTA_TOKEN e)"

text \<open>
  \<open>consultar_api_principal\<close> asks for the HTTP client before its \<open>try\<close> block: an exception
  of \<open>get_http_client\<close> leaves the function (\<open>Inl\<close>). Otherwise it returns the result, the
  requests made and the seconds spent; every exception raised inside the \<open>try\<close> block
  ends in one of the three handlers.
\<close>

definition consultar_api_principal :: "env \<Rightarrow> string \<Rightarrow> exn + jval \<times> event list \<times> nat" where
  "consultar_api_principal e placa =
     (let url = primary_url e placa in
      case get_http_client e of
        Some x \<Rightarrow> Inl x
      | None \<Rightarrow>
         (case http_get e url of (r, d) \<Rightarrow>
            Inr ((case r of
                Inl TimeoutException \<Rightarrow> failure ''timeout'' ''Timeout na consulta''
              | Inl (HTTPStatusError code) \<Rightarrow>
                  failure ''http_error'' (''Erro HTTP: '' @ show_nat code)
              | Inl x \<Rightarrow> failure ''api_error'' ''Erro na consulta''
              | Inr resp \<Rightarrow>
                  if status_code resp = 402 then
                    failure ''payment_required''
                      ''Servico temporariamente indisponivel - Creditos esgotados''
                  else if status_code resp = 404 then
                    failure ''not_found'' ''Placa nao encontrada na base de dados''
                  else if status_code resp = 429 then
                    failure ''rate_limit'' ''Muitas consultas. Aguarde alguns segundos''
                  else if \<not> is_success (status_code resp) then
                    failure ''http_error'' (''Erro HTTP: '' @ show_nat (status_code resp))
                  else (case json resp of
                          None \<Rightarrow> failure ''api_error'' ''Erro na consulta''
                        | Some body \<Rightarrow> body)),
             [Http_get url], d)))"

text \<open>
  One pass of the loop of \<open>consultar_apis_backup\<close>, all of it inside the \<open>try\<close> block of the
  loop: \<open>Some\<close> of the decoded body when the backup answers with status 200, \<open>None\<close> when
  the loop goes on to the next URL (another status, or an exception of
  \<open>get_http_client\<close>, of the request or of the decoding); with it the requests made and
  the seconds spent.
\<close>

definition backup_attempt :: "env \<Rightarrow> string \<Rightarrow> jval option \<times> event list \<times> nat" where
  "backup_attempt e url =
     (case get_http_client e of
        Some x \<Rightarrow> (None, [], 0)
      | None \<Rightarrow>
         (case http_get e url of (r, d) \<Rightarrow>
            ((case r of
                Inl x \<Rightarrow> None
              | Inr resp \<Rightarrow> if status_code resp = 200 then json resp else None),
             [Http_get url], d)))"

fun backup_loop :: "env \<Rightarrow> string \<Rightarrow> string option list \<Rightarrow> jval \<times> event list \<times> nat" where
  "backup_loop e placa [] =
     (failure ''all_apis_failed'' ''Todas as APIs de backup falharam'', [], 0)"
| "backup_loop e placa (None # rest) = backup_loop e placa rest"
| "backup_loop e placa (Some backup_url # rest) =
     (if backup_url = [] then backup_loop e placa rest
      else let url = backup_url @ ''/'' @ placa in
        case backup_attempt e url of
          (Some body, evs_a, d) \<Rightarrow> (body, evs_a, d)
        | (None, evs_a, d) \<Rightarrow>
            (case backup_loop e placa rest of
               (res, evs, d') \<Rightarrow> (res, evs_a @ evs, d + d')))"

definition consultar_apis_backup :: "env \<Rightarrow> string \<Rightarrow> jval \<times> event list \<times> nat" where
  "consultar_apis_backup e placa = backup_loop e placa (API_BACKUP_URLS e)"

definition fallback_kinds :: "jval list" where
  "fallback_kinds =
     [JStr ''payment_required'', JStr ''api_error'', JStr ''timeout'', JStr ''http_error'']"

text \<open>
  The condition of line 167, \<open>"erro" in resultado and resultado["erro"] in [...]\<close>, with the
  exception it raises on a value that is not a dict.
\<close>

definition needs_fallback :: "jval \<Rightarrow> exn + bool" where
  "needs_fallback resultado =
     (case erro_in resultado of
        Inl x \<Rightarrow> Inl x
      | Inr False \<Rightarrow> Inr False
      | Inr True \<Rightarrow>
          (case getitem_erro resultado of
             Inl x \<Rightarrow> Inl x
           | Inr kind \<Rightarrow> Inr (kind \<in> set fallback_kinds)))"

text \<open>
  \<open>consultar_placa\<close> returns the result (\<open>Inr\<close>) or the exception that leaves it (\<open>Inl\<close>), the
  new state and the calls made. The membership test and the read of a cache happen at
  the same clock value, so they agree; the clock advances by the seconds the requests
  took. The function has no \<open>try\<close> block of its own: an exception of the primary query
  or of a test on a result leaves it before any cache is written.
\<close>

definition consultar_placa :: "env \<Rightarrow> string \<Rightarrow> state \<Rightarrow> (exn + jval) \<times> state \<times> event list" where
  "consultar_placa e placa st =
     (let cache_key = ''placa_'' @ placa; error_key = ''error_'' @ placa in
      case cache_getitem (cache_principal st) (clock st) cache_key of
        Some hit \<Rightarrow> (Inr hit, st, [])
      | None \<Rightarrow>
         (case cache_getitem (cache_erros st) (clock st) error_key of
            Some hit \<Rightarrow> (Inr hit, st, [])
          | None \<Rightarrow>
             (case consultar_api_principal e placa of
                Inl x \<Rightarrow> (Inl x, st, [Call_principal placa])
              | Inr (resultado, evs, d) \<Rightarrow>
                 (case needs_fallback resultado of
                    Inl x \<Rightarrow> (Inl x, st\<lparr>clock := clock st + d\<rparr>, Call_principal placa # evs)
                  | Inr True \<Rightarrow>
                     (case consultar_apis_backup e placa of (resultado_backup, evs_b, d_b) \<Rightarrow>
                        (case erro_in resultado_backup of
                           Inl x \<Rightarrow>
                             (Inl x, st\<lparr>clock := clock st + d + d_b\<rparr>,
                              Call_principal placa # evs @ Call_backup placa # evs_b)
                         | Inr False \<Rightarrow>
                             (Inr resultado_backup,
                              set_principal st (clock st + d + d_b) cache_key resultado_backup,
                              Call_principal placa # evs @ Call_backup placa # evs_b)
                         | Inr True \<Rightarrow>
                             (Inr resultado,
                              set_erros st (clock st + d + d_b) error_key resultado,
                              Call_principal placa # evs @ Call_backup placa # evs_b)))
                  | Inr False \<Rightarrow>
                     (case erro_in resultado of
                        Inl x \<Rightarrow>
                          (Inl x, st\<lparr>clock := clock st + d\<rparr>, Call_principal placa # evs)
                      | Inr True \<Rightarrow>
                          (Inr resultado, set_erros st (clock st + d) error_key resultado,
                           Call_principal placa # evs)
                      | Inr False \<Rightarrow>
                          (Inr resultado, set_principal st (clock st + d) cache_key resultado,
                           Call_principal placa # evs))))))"

section \<open>The two entry points\<close>

text \<open>
  What a handler answers: nothing, the usage hint of an empty inline query, the message of
  the length check, the message of the format check, the message of a failure, the
  formatted result with its plate type, the message of the handler's own \<open>except\<close>
  block (an internal error for a message, a failed lookup for an inline query); or the
  handler raises.
\<close>

datatype reply = Nothing | Usage_hint | Length_rejected | Format_rejected
  | Error_shown jval | Result_shown jval string | Internal_error | Lookup_failed | Raised exn

text \<open>
  The answer to a result, lines 294 to 301 and 454 to 482: the test \<open>"erro" in resultado\<close>,
  then the read of the fields with \<open>resultado.get\<close>, which raises \<open>AttributeError\<close> on a
  value that is not a dict (in \<open>formatar_mensagem_otimizada\<close> inside its \<open>except\<close> block as
  well, so the exception leaves it).
\<close>

definition show_result :: "jval \<Rightarrow> string \<Rightarrow> exn + reply" where
  "show_result resultado plate_type =
     (case erro_in resultado of
        Inl x \<Rightarrow> Inl x
      | Inr marked \<Rightarrow>
          (case resultado of
             JObj d \<Rightarrow> Inr (if marked then Error_shown resultado
                             else Result_shown resultado plate_type)
           | _ \<Rightarrow> Inl AttributeError))"

text \<open>In \<open>handle_message\<close> the lookup and the answer are inside one \<open>try\<close> block.\<close>

definition message_reply :: "exn + jval \<Rightarrow> string \<Rightarrow> reply" where
  "message_reply outcome plate_type =
     (case outcome of
        Inl x \<Rightarrow> Internal_error
      | Inr resultado \<Rightarrow>
          (case show_result resultado plate_type of Inl x \<Rightarrow> Internal_error | Inr r \<Rightarrow> r))"

definition handle_message :: "env \<Rightarrow> string option \<Rightarrow> state \<Rightarrow> reply \<times> state \<times> event list" where
  "handle_message e text st =
     (case text of
        None \<Rightarrow> (Nothing, st, [])
      | Some t \<Rightarrow>
          if t = [] then (Nothing, st, [])
          else
            let user_input = strip t; placa = normalize_plate user_input in
            if \<not> (7 \<le> length user_input \<and> length user_input \<le> 8) then
              (Length_rejected, st, [])
            else
              (case validate_plate placa of (is_valid, plate_type) \<Rightarrow>
                 if \<not> is_valid then (Format_rejected, st, [Call_validate placa])
                 else
                   (case consultar_placa e placa st of (outcome, st', evs) \<Rightarrow>
                      (message_reply outcome plate_type, st', Call_validate placa # evs))))"

text \<open>
  In \<open>handle_inline_query\<close> only the lookup and the write of \<open>cache_inline\<close> are inside the
  \<open>try\<close> block; the answer to the result comes after it.
\<close>

definition inline_reply :: "jval \<Rightarrow> string \<Rightarrow> reply" where
  "inline_reply resultado plate_type =
     (case show_result resultado plate_type of Inl x \<Rightarrow> Raised x | Inr r \<Rightarrow> r)"

definition handle_inline_query :: "env \<Rightarrow> string \<Rightarrow> state \<Rightarrow> reply \<times> state \<times> event list" where
  "handle_inline_query e q st =
     (let query = strip q in
      if query = [] then (Usage_hint, st, [])
      else
        let placa = normalize_plate query in
        if length placa \<noteq> 7 then (Length_rejected, st, [])
        else
          (case validate_plate placa of (is_valid, plate_type) \<Rightarrow>
             if \<not> is_valid then (Format_rejected, st, [Call_validate placa])
             else
               let inline_cache_key = ''inline_'' @ placa in
               (case cache_getitem (cache_inline st) (clock st) inline_cache_key of
                  Some resultado \<Rightarrow>
                    (inline_reply resultado plate_type, st, [Call_validate placa])
                | None \<Rightarrow>
                    (case consultar_placa e placa st of
                       (Inl x, st', evs) \<Rightarrow> (Lookup_failed, st', Call_validate placa # evs)
                     | (Inr resultado, st', evs) \<Rightarrow>
                         (case erro_in resultado of
                            Inl x \<Rightarrow> (Lookup_failed, st', Call_validate placa # evs)
                          | Inr True \<Rightarrow>
                              (inline_reply resultado plate_type, st',
                               Call_validate placa # evs)
                          | Inr False \<Rightarrow>
                              (inline_reply resultado plate_type,
                               set_inline st' inline_cache_key resultado,
                               Call_validate placa # evs))))))"





text \<open>
  The backups that are configured, in the order of \<open>API_BACKUP_URLS\<close>: the loop passes
  over an unset or empty entry without a request.
\<close>

fun configured :: "string option list \<Rightarrow> string list" where
  "configured [] = []"
| "configured (None # rest) = configured rest"
| "configured (Some s # rest) = (if s = [] then configured rest else s # configured rest)"

text \<open>A backup returns a Record: status 200 and a decoded body that is a Record.\<close>

definition backup_returns_record :: "env \<Rightarrow> string \<Rightarrow> bool" where
  "backup_returns_record e url =
     (case fst (backup_attempt e url) of None \<Rightarrow> False | Some body \<Rightarrow> is_record body)"

text \<open>A backup responds with status 200, whatever its body.\<close>

definition responds_200 :: "http_result \<times> nat \<Rightarrow> bool" where
  "responds_200 out = (case fst out of Inl x \<Rightarrow> False | Inr resp \<Rightarrow> status_code resp = 200)"

text \<open>
  A configuration for examples: a primary source and two backups, each with a given
  answer for the plate \<open>ABC1234\<close>; every other request fails to connect.
\<close>

definition example_env :: "http_result \<times> nat \<Rightarrow> http_result \<times> nat \<Rightarrow> http_result \<times> nat \<Rightarrow> env" where
  "example_env primary backup1 backup2 =
     \<lparr>API_CONSULTA_URL = Some ''https://api'', API_CONSULTA_TOKEN = Some ''tok'',
      API_BACKUP_URLS = [Some ''https://b1'', Some ''https://b2''],
      get_http_client = None,
      http_get = (\<lambda>url.
        if url = ''https://api/ABC1234/tok'' then primary
        else if url = ''https://b1/ABC1234'' then backup1
        else if url = ''https://b2/ABC1234'' then backup2
        else (Inl OtherException, 0))\<rparr>"

definition ok_response :: "jval \<Rightarrow> http_result \<times> nat" where
  "ok_response body = (Inr \<lparr>status_code = 200, json = Some body\<rparr>, 1)"

definition status_response :: "nat \<Rightarrow> http_result \<times> nat" where
  "status_response code = (Inr \<lparr>status_code = code, json = None\<rparr>, 1)"

definition civic :: jval where
  "civic = JObj [(''modelo'', JStr ''Civic'')]"

definition sem_dados :: jval where
  "sem_dados = JObj [(''erro'', JStr ''sem_dados'')]"

definition timeout_env :: env where
  "timeout_env = example_env (Inl TimeoutException, 15) (status_response 500) (ok_response civic)"

definition all_down_env :: env where
  "all_down_env = example_env (status_response 402) (status_response 500) (ok_response sem_dados)"

definition error_body_env :: env where
  "error_body_env = example_env (Inl TimeoutException, 15) (ok_response sem_dados)
     (ok_response civic)"

definition found_env :: env where
  "found_env = example_env (ok_response civic) (status_response 500) (status_response 500)"

text \<open>The first backup answers 200 with the body \<open>null\<close>; the second one is down.\<close>

definition null_body_env :: env where
  "null_body_env = example_env (status_response 402) (ok_response JNull) (status_response 500)"

text \<open>The first backup answers 200 with a body that is not JSON; the second has the Record.\<close>

definition bad_body_env :: env where
  "bad_body_env = example_env (Inl TimeoutException, 15) (status_response 200) (ok_response civic)"

text \<open>
  The first backup answers 200 with a body that is not JSON; the second answers 200 with
  a body that carries \<open>erro\<close>.
\<close>

definition late_error_env :: env where
  "late_error_env = example_env (Inl TimeoutException, 15) (status_response 200)
     (ok_response sem_dados)"

text \<open>Building the HTTP client raises.\<close>

definition no_client_env :: env where
  "no_client_env = (example_env (ok_response civic) (ok_response civic) (ok_response civic))
     \<lparr>get_http_client := Some OtherException\<rparr>"


section \<open>Properties of the validator\<close>

lemma upper_digit_disjoint: "is_upper c \<Longrightarrow> \<not> is_digit c"
  by (simp add: is_upper_def is_digit_def)

lemma alnum_not_lower: "is_upper c \<or> is_digit c \<Longrightarrow> \<not> is_lower c"
  by (auto simp: is_upper_def is_digit_def is_lower_def)

lemma alnum_not_space: "is_upper c \<or> is_digit c \<Longrightarrow> \<not> is_space c"
  by (auto simp: is_upper_def is_digit_def is_space_def)

lemma upper_alnum: "\<forall>c\<in>set s. is_upper c \<or> is_digit c \<Longrightarrow> upper s = s"
  unfolding upper_def by (rule map_idI) (simp add: upper_char_def alnum_not_lower)

lemma strip_no_space:
  assumes "s \<noteq> []" "\<not> is_space (hd s)" "\<not> is_space (last s)"
  shows "strip s = s"
proof -
  from assms have a: "dropWhile is_space s = s" by (cases s) simp_all
  from assms have "rev s \<noteq> []" "\<not> is_space (hd (rev s))" by (simp_all add: hd_rev)
  then have "dropWhile is_space (rev s) = rev s" by (cases "rev s") simp_all
  with a show ?thesis by (simp add: strip_def)
qed

lemma strip_alnum:
  assumes "\<forall>c\<in>set s. is_upper c \<or> is_digit c"
  shows "strip s = s"
proof (cases "s = []")
  case True then show ?thesis by (simp add: strip_def)
next
  case False
  then have "hd s \<in> set s" "last s \<in> set s" by simp_all
  with assms have "\<not> is_space (hd s)" "\<not> is_space (last s)" using alnum_not_space by blast+
  with False show ?thesis by (rule strip_no_space)
qed

lemma re_match_alnum:
  assumes "\<forall>c\<in>set s. is_upper c \<or> is_digit c"
  shows "re_match pattern s = list_all2 in_class pattern s"
proof (cases "s = []")
  case True then show ?thesis by (simp add: re_match_def)
next
  case False
  then have "last s \<in> set s" by simp
  with assms have "is_upper (last s) \<or> is_digit (last s)" by blast
  then have "last s \<noteq> CHR 0x0A" by (auto simp: is_upper_def is_digit_def)
  then show ?thesis by (simp add: re_match_def)
qed

lemma first_match_unique:
  assumes "(ty, pat) \<in> set ps" "re_match pat plate"
    and "\<forall>q\<in>set ps. re_match (snd q) plate \<longrightarrow> fst q = ty"
  shows "first_match ps plate = (True, ty)"
  using assms by (induction ps plate rule: first_match.induct) auto

lemma first_match_none:
  assumes "\<forall>q\<in>set ps. \<not> re_match (snd q) plate"
  shows "first_match ps plate = (False, ''invalid'')"
  using assms by (induction ps plate rule: first_match.induct) auto

lemma len7: "length s = 7 \<Longrightarrow> \<exists>a b c d e f g. s = [a, b, c, d, e, f, g]"
  by (auto simp: length_Suc_conv eval_nat_numeral)

lemma first_match_set:
  assumes "\<forall>p\<in>set ps. \<forall>q\<in>set ps. re_match (snd p) plate \<and> re_match (snd q) plate \<longrightarrow> fst p = fst q"
    and "set ps' = set ps"
  shows "first_match ps' plate = first_match ps plate"
proof (cases "\<exists>p\<in>set ps. re_match (snd p) plate")
  case True
  then obtain ty pat where m: "(ty, pat) \<in> set ps" "re_match pat plate" by auto
  with assms(1) have u: "\<forall>q\<in>set ps. re_match (snd q) plate \<longrightarrow> fst q = ty" by fastforce
  from m u have "first_match ps plate = (True, ty)" by (rule first_match_unique)
  moreover from m u assms(2) have "first_match ps' plate = (True, ty)"
    by (intro first_match_unique[where pat = pat]) simp_all
  ultimately show ?thesis by simp
next
  case False
  then have "first_match ps plate = (False, ''invalid'')" by (intro first_match_none) blast
  moreover from False assms(2) have "first_match ps' plate = (False, ''invalid'')"
    by (intro first_match_none) blast
  ultimately show ?thesis by simp
qed

text \<open>
  Claim C5. On a string of seven characters, each an upper-case letter or a digit,
  \<open>validate_plate\<close> answers \<open>(True, antiga)\<close> exactly on the legacy shape,
  \<open>(True, mercosul)\<close> exactly on the current shape, \<open>(True, moto_mercosul)\<close> exactly on the
  two-wheeler shape and \<open>(False, invalid)\<close> on every other string; no string has two of
  the shapes, and the loop gives the same answer over the pattern table in any order.
\<close>

theorem validate_plate_shapes:
  assumes len: "length s = 7" and alnum: "\<forall>c\<in>set s. is_upper c \<or> is_digit c"
  shows "(validate_plate s = (True, ''antiga'') \<longleftrightarrow> legacy_shape s)
       \<and> (validate_plate s = (True, ''mercosul'') \<longleftrightarrow> current_shape s)
       \<and> (validate_plate s = (True, ''moto_mercosul'') \<longleftrightarrow> two_wheeler_shape s)
       \<and> (\<not> legacy_shape s \<and> \<not> current_shape s \<and> \<not> two_wheeler_shape s
            \<longrightarrow> validate_plate s = (False, ''invalid''))
       \<and> \<not> (legacy_shape s \<and> current_shape s)
       \<and> \<not> (legacy_shape s \<and> two_wheeler_shape s)
       \<and> \<not> (current_shape s \<and> two_wheeler_shape s)
       \<and> (\<forall>ps. set ps = set PLATE_PATTERNS
            \<longrightarrow> first_match ps (strip (upper s)) = validate_plate s)"
proof -
  from len obtain a b c d e f g where s: "s = [a, b, c, d, e, f, g]" using len7 by blast
  have norm: "strip (upper s) = s" using alnum by (simp add: upper_alnum strip_alnum)
  have m: "\<And>pattern. re_match pattern s = list_all2 in_class pattern s"
    using alnum by (rule re_match_alnum)
  have cur: "re_match [Upper, Upper, Upper, Digit, Upper, Digit, Digit] s = current_shape s"
    unfolding m by (simp add: s current_shape_def conj_ac)
  have leg: "re_match [Upper, Upper, Upper, Digit, Digit, Digit, Digit] s = legacy_shape s"
    unfolding m by (simp add: s legacy_shape_def conj_ac)
  have two: "re_match [Upper, Upper, Upper, Digit, Digit, Upper, Digit] s = two_wheeler_shape s"
    unfolding m by (simp add: s two_wheeler_shape_def conj_ac)
  have e1: "\<not> (legacy_shape s \<and> current_shape s)"
    using upper_digit_disjoint[of e] by (auto simp: s legacy_shape_def current_shape_def)
  have e2: "\<not> (legacy_shape s \<and> two_wheeler_shape s)"
    using upper_digit_disjoint[of f] by (auto simp: s legacy_shape_def two_wheeler_shape_def)
  have e3: "\<not> (current_shape s \<and> two_wheeler_shape s)"
    using upper_digit_disjoint[of e] by (auto simp: s current_shape_def two_wheeler_shape_def)
  have v: "validate_plate s =
      (if current_shape s then (True, ''mercosul'')
       else if legacy_shape s then (True, ''antiga'')
       else if two_wheeler_shape s then (True, ''moto_mercosul'')
       else (False, ''invalid''))"
    by (simp add: validate_plate_def norm PLATE_PATTERNS_def cur leg two)
  have uniq: "\<forall>p\<in>set PLATE_PATTERNS. \<forall>q\<in>set PLATE_PATTERNS.
      re_match (snd p) s \<and> re_match (snd q) s \<longrightarrow> fst p = fst q"
    using e1 e2 e3 by (simp add: PLATE_PATTERNS_def cur leg two, blast)
  have perm: "\<forall>ps. set ps = set PLATE_PATTERNS
            \<longrightarrow> first_match ps (strip (upper s)) = validate_plate s"
  proof (intro allI impI)
    fix ps assume "set ps = set PLATE_PATTERNS"
    with uniq have "first_match ps s = first_match PLATE_PATTERNS s" by (rule first_match_set)
    then show "first_match ps (strip (upper s)) = validate_plate s"
      by (simp only: norm validate_plate_def)
  qed
  have s1: "validate_plate s = (True, ''antiga'') \<longleftrightarrow> legacy_shape s"
    using e1 by (simp add: v)
  have s2: "validate_plate s = (True, ''mercosul'') \<longleftrightarrow> current_shape s"
    by (simp add: v)
  have s3: "validate_plate s = (True, ''moto_mercosul'') \<longleftrightarrow> two_wheeler_shape s"
    using e2 e3 by (simp add: v)
  have s4: "\<not> legacy_shape s \<and> \<not> current_shape s \<and> \<not> two_wheeler_shape s
            \<longrightarrow> validate_plate s = (False, ''invalid'')"
    by (simp add: v)
  show ?thesis by (intro conjI s1 s2 s3 s4 e1 e2 e3 perm)
qed


theorem validate_plate_shapes_witness:
  "length ''ABC1D23'' = 7 \<and> list_all (\<lambda>c. is_upper c \<or> is_digit c) ''ABC1D23''
   \<and> current_shape ''ABC1D23'' \<and> validate_plate ''ABC1D23'' = (True, ''mercosul'')
   \<and> first_match (rev PLATE_PATTERNS) (strip (upper ''ABC1D23'')) = (True, ''mercosul'')"
proof -
  have l: "length ''ABC1D23'' = 7" by simp
  have a: "\<forall>c\<in>set ''ABC1D23''. is_upper c \<or> is_digit c" by code_simp
  have c: "current_shape ''ABC1D23''" by code_simp
  have r: "set (rev PLATE_PATTERNS) = set PLATE_PATTERNS" by simp
  from validate_plate_shapes[OF l a]
  have v: "validate_plate ''ABC1D23'' = (True, ''mercosul'') \<longleftrightarrow> current_shape ''ABC1D23''"
    and p: "\<forall>ps. set ps = set PLATE_PATTERNS
            \<longrightarrow> first_match ps (strip (upper ''ABC1D23'')) = validate_plate ''ABC1D23''"
    by blast+
  from v c have v': "validate_plate ''ABC1D23'' = (True, ''mercosul'')" by simp
  from p r have "first_match (rev PLATE_PATTERNS) (strip (upper ''ABC1D23'')) = validate_plate ''ABC1D23''"
    by blast
  moreover from a have "list_all (\<lambda>c. is_upper c \<or> is_digit c) ''ABC1D23''"
    by (simp only: list_all_iff)
  ultimately show ?thesis using v' l c by simp
qed

section \<open>Properties of the caches and of the lookup\<close>

lemma map_of_filter_key: "map_of (filter (\<lambda>(k', v', x). k' \<noteq> k) xs) k = None"
  by (induction xs) auto

lemma map_of_drop_None: "map_of xs k = None \<Longrightarrow> map_of (drop n xs) k = None"
proof -
  assume "map_of xs k = None"
  then have "k \<notin> fst ` set xs" by (simp add: map_of_eq_None_iff)
  moreover have "set (drop n xs) \<subseteq> set xs" by (rule set_drop_subset)
  ultimately have "k \<notin> fst ` set (drop n xs)" by blast
  then show ?thesis by (simp add: map_of_eq_None_iff)
qed

lemma getitem_setitem:
  "cache_getitem (cache_setitem maxsize ttl c now k v) t k =
     (if t < now + ttl then Some v else None)"
proof -
  define live where "live = filter (\<lambda>(k', v', expires). now < expires) c"
  define kept where "kept = (if map_of live k \<noteq> None
      then filter (\<lambda>(k', v', expires). k' \<noteq> k) live
      else drop (Suc (length live) - maxsize) live)"
  have "map_of kept k = None"
  proof (cases "map_of live k = None")
    case True
    then show ?thesis unfolding kept_def by (simp add: map_of_drop_None)
  next
    case False
    then show ?thesis unfolding kept_def by (simp add: map_of_filter_key)
  qed
  then have "map_of (kept @ [(k, v, now + ttl)]) k = Some (v, now + ttl)"
    by (simp add: map_add_def)
  moreover have "cache_setitem maxsize ttl c now k v = kept @ [(k, v, now + ttl)]"
    by (simp add: cache_setitem_def Let_def kept_def live_def)
  ultimately show ?thesis by (simp add: cache_getitem_def)
qed

lemma getitem_later:
  "cache_getitem c t k = None \<Longrightarrow> t \<le> t' \<Longrightarrow> cache_getitem c t' k = None"
  by (auto simp: cache_getitem_def split: option.splits if_splits)


lemma getitem_set_erros:
  "cache_getitem (cache_erros (set_erros st now k v)) (clock (set_erros st now k v)) k = Some v"
  by (simp add: set_erros_def getitem_setitem)

lemma getitem_set_principal:
  "cache_getitem (cache_principal (set_principal st now k v)) (clock (set_principal st now k v)) k
     = Some v"
  by (simp add: set_principal_def getitem_setitem)

text \<open>The condition of the fallback holds exactly for an object with one of the four kinds.\<close>

lemma needs_fallback_iff:
  "needs_fallback r = Inr True \<longleftrightarrow>
     erro_kind r \<in> {Some (JStr ''payment_required''), Some (JStr ''api_error''),
                     Some (JStr ''timeout''), Some (JStr ''http_error'')}"
  by (cases r)
     (auto simp: needs_fallback_def fallback_kinds_def has_key_def
           split: option.splits bool.splits sum.splits)

lemma needs_fallback_marked: "needs_fallback r = Inr True \<Longrightarrow> erro_in r = Inr True"
  by (auto simp: needs_fallback_def split: sum.splits bool.splits)

lemma needs_fallback_tested: "needs_fallback r = Inr False \<Longrightarrow> \<exists>b. erro_in r = Inr b"
  by (auto simp: needs_fallback_def split: sum.splits bool.splits)

lemma principal_returns:
  assumes "consultar_api_principal e placa = Inr (r, evs, d)"
  shows "get_http_client e = None" and "evs = [Http_get (primary_url e placa)]"
  using assms
  by (auto simp: consultar_api_principal_def Let_def split: option.splits prod.splits)

lemma principal_raises:
  "consultar_api_principal e placa = Inl x \<longleftrightarrow> get_http_client e = Some x"
  by (auto simp: consultar_api_principal_def Let_def split: option.splits prod.splits)

lemma backup_attempt_events:
  "get_http_client e = None \<Longrightarrow> fst (snd (backup_attempt e url)) = [Http_get url]"
  by (simp add: backup_attempt_def split: prod.splits)

lemma backup_attempt_no_call: "Call_backup p \<notin> set (fst (snd (backup_attempt e url)))"
  by (simp add: backup_attempt_def split: option.splits prod.splits)

lemma backup_loop_hit:
  assumes "s \<noteq> []" and "backup_attempt e (s @ ''/'' @ placa) = (Some body, evs_a, d)"
  shows "backup_loop e placa (Some s # rest) = (body, evs_a, d)"
  using assms by (simp add: Let_def)

lemma backup_loop_skip:
  assumes "s \<noteq> []" and "backup_attempt e (s @ ''/'' @ placa) = (None, evs_a, d)"
    and "backup_loop e placa rest = (res, evs, d')"
  shows "backup_loop e placa (Some s # rest) = (res, evs_a @ evs, d + d')"
  using assms by (simp add: Let_def)

lemma backup_loop_induct [case_names Nil Unset Empty Hit Skip]:
  assumes nil: "P []"
    and unset: "\<And>rest. P rest \<Longrightarrow> P (None # rest)"
    and empty: "\<And>rest. P rest \<Longrightarrow> P (Some [] # rest)"
    and hit: "\<And>s rest body evs_a d. s \<noteq> [] \<Longrightarrow>
        backup_attempt e (s @ ''/'' @ placa) = (Some body, evs_a, d) \<Longrightarrow> P (Some s # rest)"
    and skip: "\<And>s rest evs_a d. s \<noteq> [] \<Longrightarrow>
        backup_attempt e (s @ ''/'' @ placa) = (None, evs_a, d) \<Longrightarrow> P rest
        \<Longrightarrow> P (Some s # rest)"
  shows "P urls"
proof (induction urls)
  case Nil
  show ?case by (rule nil)
next
  case (Cons u rest)
  show ?case
  proof (cases u)
    case None
    with Cons unset show ?thesis by simp
  next
    case (Some s)
    obtain b evs_a d where a: "backup_attempt e (s @ ''/'' @ placa) = (b, evs_a, d)"
      by (cases "backup_attempt e (s @ ''/'' @ placa)")
    show ?thesis
    proof (cases "s = []")
      case True
      with Cons Some empty show ?thesis by simp
    next
      case False
      show ?thesis
      proof (cases b)
        case None
        with a False Cons have "P (Some s # rest)" by (intro skip) simp_all
        with Some show ?thesis by simp
      next
        case (Some body)
        with a False have "P (Some s # rest)" by (intro hit) simp_all
        with \<open>u = Some s\<close> show ?thesis by simp
      qed
    qed
  qed
qed

lemma backup_events_no_call:
  "Call_backup p \<notin> set (fst (snd (backup_loop e placa urls)))"
proof (induction urls rule: backup_loop_induct[where e = e and placa = placa])
  case (Hit s rest body evs_a d)
  with backup_attempt_no_call[of p e "s @ ''/'' @ placa"] show ?case
    by (simp add: backup_loop_hit)
next
  case (Skip s rest evs_a d)
  obtain res evs d' where "backup_loop e placa rest = (res, evs, d')"
    by (cases "backup_loop e placa rest")
  with Skip backup_attempt_no_call[of p e "s @ ''/'' @ placa"] show ?case
    by (simp add: backup_loop_skip)
qed simp_all

text \<open>The lookup on an identifier that neither cache holds, branch by branch.\<close>

lemma consultar_placa_raises:
  assumes "cache_getitem (cache_principal st) (clock st) (''placa_'' @ placa) = None"
    and "cache_getitem (cache_erros st) (clock st) (''error_'' @ placa) = None"
    and "consultar_api_principal e placa = Inl x"
  shows "consultar_placa e placa st = (Inl x, st, [Call_principal placa])"
  using assms by (simp add: consultar_placa_def Let_def)

lemma consultar_placa_miss:
  assumes "cache_getitem (cache_principal st) (clock st) (''placa_'' @ placa) = None"
    and "cache_getitem (cache_erros st) (clock st) (''error_'' @ placa) = None"
    and "consultar_api_principal e placa = Inr (r, evs, d)"
    and "consultar_apis_backup e placa = (rb, evs_b, d_b)"
  shows "consultar_placa e placa st =
    (case needs_fallback r of
       Inl x \<Rightarrow> (Inl x, st\<lparr>clock := clock st + d\<rparr>, Call_principal placa # evs)
     | Inr True \<Rightarrow>
        (case erro_in rb of
           Inl x \<Rightarrow>
             (Inl x, st\<lparr>clock := clock st + d + d_b\<rparr>,
              Call_principal placa # evs @ Call_backup placa # evs_b)
         | Inr False \<Rightarrow>
             (Inr rb, set_principal st (clock st + d + d_b) (''placa_'' @ placa) rb,
              Call_principal placa # evs @ Call_backup placa # evs_b)
         | Inr True \<Rightarrow>
             (Inr r, set_erros st (clock st + d + d_b) (''error_'' @ placa) r,
              Call_principal placa # evs @ Call_backup placa # evs_b))
     | Inr False \<Rightarrow>
        (case erro_in r of
           Inl x \<Rightarrow> (Inl x, st\<lparr>clock := clock st + d\<rparr>, Call_principal placa # evs)
         | Inr True \<Rightarrow>
             (Inr r, set_erros st (clock st + d) (''error_'' @ placa) r,
              Call_principal placa # evs)
         | Inr False \<Rightarrow>
             (Inr r, set_principal st (clock st + d) (''placa_'' @ placa) r,
              Call_principal placa # evs)))"
  using assms by (simp add: consultar_placa_def Let_def split: sum.splits bool.splits)

lemma consultar_placa_trace:
  assumes "cache_getitem (cache_principal st) (clock st) (''placa_'' @ placa) = None"
    and "cache_getitem (cache_erros st) (clock st) (''error_'' @ placa) = None"
    and "consultar_api_principal e placa = Inr (r, evs, d)"
    and "consultar_apis_backup e placa = (rb, evs_b, d_b)"
  shows "snd (snd (consultar_placa e placa st)) =
    (if needs_fallback r = Inr True
     then Call_principal placa # evs @ Call_backup placa # evs_b
     else Call_principal placa # evs)"
  unfolding consultar_placa_miss[OF assms]
  by (simp split: sum.splits bool.splits)

text \<open>
  The table of the primary query, when \<open>get_http_client\<close> hands out the client: the result
  for every outcome of the request.
\<close>

lemma primary_query_classified:
  assumes "consultar_api_principal e placa = Inr (r, evs, d)"
  shows "(fst (http_get e (primary_url e placa)) = Inl TimeoutException
      \<longrightarrow> erro_kind r = Some (JStr ''timeout''))
   \<and> (\<forall>resp. fst (http_get e (primary_url e placa)) = Inr resp \<and> status_code resp = 402
      \<longrightarrow> erro_kind r = Some (JStr ''payment_required''))
   \<and> (\<forall>resp. fst (http_get e (primary_url e placa)) = Inr resp \<and> status_code resp = 404
      \<longrightarrow> erro_kind r = Some (JStr ''not_found''))
   \<and> (\<forall>resp. fst (http_get e (primary_url e placa)) = Inr resp \<and> status_code resp = 429
      \<longrightarrow> erro_kind r = Some (JStr ''rate_limit''))
   \<and> (\<forall>resp. fst (http_get e (primary_url e placa)) = Inr resp
        \<and> \<not> is_success (status_code resp) \<and> status_code resp \<notin> {402, 404, 429}
      \<longrightarrow> erro_kind r = Some (JStr ''http_error''))
   \<and> (\<forall>code. fst (http_get e (primary_url e placa)) = Inl (HTTPStatusError code)
      \<longrightarrow> erro_kind r = Some (JStr ''http_error''))
   \<and> (\<forall>x. fst (http_get e (primary_url e placa)) = Inl x \<and> x \<noteq> TimeoutException
        \<and> (\<forall>code. x \<noteq> HTTPStatusError code)
      \<longrightarrow> erro_kind r = Some (JStr ''api_error''))
   \<and> (\<forall>resp. fst (http_get e (primary_url e placa)) = Inr resp
        \<and> is_success (status_code resp) \<and> json resp = None
      \<longrightarrow> erro_kind r = Some (JStr ''api_error''))
   \<and> (\<forall>resp body. fst (http_get e (primary_url e placa)) = Inr resp
        \<and> is_success (status_code resp) \<and> json resp = Some body
      \<longrightarrow> r = body)"
  using assms
  by (cases "http_get e (primary_url e placa)")
     (auto simp: consultar_api_principal_def Let_def failure_def is_success_def
           split: sum.splits exn.splits option.splits)

text \<open>
  Claim C7. The claim holds of the requests but not of the whole adapter: the call of
  \<open>get_http_client\<close> stands before the \<open>try\<close> block of \<open>consultar_api_principal\<close>, so when
  building the client raises, the exception leaves the adapter and the lookup, and no
  failure of kind \<open>api_error\<close> is made of it. The backup path has the same call inside
  its \<open>try\<close> block and answers with a failure.
\<close>

theorem client_error_leaves_primary:
  "get_http_client no_client_env = Some OtherException
   \<and> consultar_api_principal no_client_env ''ABC1234'' = Inl OtherException
   \<and> consultar_placa no_client_env ''ABC1234'' initial_state
       = (Inl OtherException, initial_state, [Call_principal ''ABC1234''])
   \<and> consultar_apis_backup no_client_env ''ABC1234''
       = (failure ''all_apis_failed'' ''Todas as APIs de backup falharam'', [], 0)"
  by code_simp

lemma backup_events_prefix:
  assumes "get_http_client e = None"
  shows "\<exists>n. fst (snd (backup_loop e placa urls))
        = map (\<lambda>u. Http_get (u @ ''/'' @ placa)) (take n (configured urls))
      \<and> (configured urls \<noteq> [] \<longrightarrow> 0 < n)"
proof (induction urls rule: backup_loop_induct[where e = e and placa = placa])
  case Nil
  show ?case by simp
next
  case (Unset rest)
  then show ?case by simp
next
  case (Empty rest)
  then show ?case by simp
next
  case (Hit s rest body evs_a d)
  from Hit(2) assms have "evs_a = [Http_get (s @ ''/'' @ placa)]"
    using backup_attempt_events[of e "s @ ''/'' @ placa"] by simp
  with Hit have "fst (snd (backup_loop e placa (Some s # rest)))
      = map (\<lambda>u. Http_get (u @ ''/'' @ placa)) (take (Suc 0) (configured (Some s # rest)))"
    by (simp add: backup_loop_hit)
  then show ?case by blast
next
  case (Skip s rest evs_a d)
  from Skip(2) assms have a: "evs_a = [Http_get (s @ ''/'' @ placa)]"
    using backup_attempt_events[of e "s @ ''/'' @ placa"] by simp
  obtain res evs d' where r: "backup_loop e placa rest = (res, evs, d')"
    by (cases "backup_loop e placa rest")
  from Skip(3) r obtain n where
    n: "evs = map (\<lambda>u. Http_get (u @ ''/'' @ placa)) (take n (configured rest))" by auto
  from Skip(1,2) r n a have "fst (snd (backup_loop e placa (Some s # rest)))
      = map (\<lambda>u. Http_get (u @ ''/'' @ placa)) (take (Suc n) (configured (Some s # rest)))"
    by (simp add: backup_loop_skip)
  then show ?case by blast
qed

lemma backup_events_first:
  assumes "get_http_client e = None" and "configured urls \<noteq> []"
  shows "Http_get (hd (configured urls) @ ''/'' @ placa) \<in> set (fst (snd (backup_loop e placa urls)))"
proof -
  from backup_events_prefix[OF assms(1), of placa urls] assms(2) obtain n where
    n: "fst (snd (backup_loop e placa urls))
        = map (\<lambda>u. Http_get (u @ ''/'' @ placa)) (take n (configured urls))" "0 < n" by blast
  from assms(2) n(2) have "hd (configured urls) \<in> set (take n (configured urls))"
    by (cases "configured urls"; cases n) simp_all
  with n(1) show ?thesis by simp
qed

text \<open>
  Claim C1. For an identifier that neither cache holds, \<open>consultar_placa\<close> calls the backups
  exactly when the result of the primary source is a failure of kind \<open>payment_required\<close>,
  \<open>api_error\<close>, \<open>timeout\<close> or \<open>http_error\<close>. Otherwise (a Record, \<open>not_found\<close>,
  \<open>rate_limit\<close>, any other value) the only calls are the primary source and its one
  request. When the backups are called, the requests of the backup loop follow, and the
  first configured backup, if there is one, is requested. When the primary source gives
  no result at all (an exception leaves it), the only call is the primary source.
\<close>

theorem fallback_gating:
  assumes "cache_getitem (cache_principal st) (clock st) (''placa_'' @ placa) = None"
    and "cache_getitem (cache_erros st) (clock st) (''error_'' @ placa) = None"
  shows "(\<forall>x. consultar_api_principal e placa = Inl x
          \<longrightarrow> snd (snd (consultar_placa e placa st)) = [Call_principal placa])
       \<and> (\<forall>r evs d. consultar_api_principal e placa = Inr (r, evs, d) \<longrightarrow>
           (Call_backup placa \<in> set (snd (snd (consultar_placa e placa st)))
              \<longleftrightarrow> erro_kind r
                   \<in> {Some (JStr ''payment_required''), Some (JStr ''api_error''),
                      Some (JStr ''timeout''), Some (JStr ''http_error'')})
         \<and> (erro_kind r
                   \<notin> {Some (JStr ''payment_required''), Some (JStr ''api_error''),
                      Some (JStr ''timeout''), Some (JStr ''http_error'')}
              \<longrightarrow> snd (snd (consultar_placa e placa st))
                   = [Call_principal placa, Http_get (primary_url e placa)])
         \<and> (erro_kind r
                   \<in> {Some (JStr ''payment_required''), Some (JStr ''api_error''),
                      Some (JStr ''timeout''), Some (JStr ''http_error'')}
              \<longrightarrow> snd (snd (consultar_placa e placa st))
                   = [Call_principal placa, Http_get (primary_url e placa), Call_backup placa]
                     @ fst (snd (consultar_apis_backup e placa)))
         \<and> (erro_kind r
                   \<in> {Some (JStr ''payment_required''), Some (JStr ''api_error''),
                      Some (JStr ''timeout''), Some (JStr ''http_error'')}
                \<and> configured (API_BACKUP_URLS e) \<noteq> []
              \<longrightarrow> Http_get (hd (configured (API_BACKUP_URLS e)) @ ''/'' @ placa)
                   \<in> set (snd (snd (consultar_placa e placa st)))))"
proof (intro conjI allI impI)
  fix x
  assume "consultar_api_principal e placa = Inl x"
  then show "snd (snd (consultar_placa e placa st)) = [Call_principal placa]"
    by (simp add: consultar_placa_raises[OF assms])
next
  fix r evs d
  assume p: "consultar_api_principal e placa = Inr (r, evs, d)"
  obtain rb evs_b d_b where b: "consultar_apis_backup e placa = (rb, evs_b, d_b)"
    by (cases "consultar_apis_backup e placa")
  from p have client: "get_http_client e = None" and evs: "evs = [Http_get (primary_url e placa)]"
    by (rule principal_returns)+
  have nb: "Call_backup placa \<notin> set evs_b"
    using backup_events_no_call[of placa e placa "API_BACKUP_URLS e"] b
    by (simp add: consultar_apis_backup_def)
  have first: "configured (API_BACKUP_URLS e) \<noteq> []
      \<Longrightarrow> Http_get (hd (configured (API_BACKUP_URLS e)) @ ''/'' @ placa) \<in> set evs_b"
    using backup_events_first[OF client, of "API_BACKUP_URLS e" placa] b
    by (simp add: consultar_apis_backup_def)
  note tr = consultar_placa_trace[OF assms p b]
  {
    assume k: "erro_kind r \<notin> {Some (JStr ''payment_required''), Some (JStr ''api_error''),
                  Some (JStr ''timeout''), Some (JStr ''http_error'')}"
    then have "needs_fallback r \<noteq> Inr True" by (simp only: needs_fallback_iff not_False_eq_True)
    then show "snd (snd (consultar_placa e placa st))
        = [Call_principal placa, Http_get (primary_url e placa)]"
      by (simp add: tr evs)
  }
  {
    assume k: "erro_kind r \<in> {Some (JStr ''payment_required''), Some (JStr ''api_error''),
                  Some (JStr ''timeout''), Some (JStr ''http_error'')}"
    then have "needs_fallback r = Inr True" by (simp only: needs_fallback_iff)
    then show "snd (snd (consultar_placa e placa st))
        = [Call_principal placa, Http_get (primary_url e placa), Call_backup placa]
          @ fst (snd (consultar_apis_backup e placa))"
      by (simp add: tr evs b)
  }
  {
    assume k: "erro_kind r \<in> {Some (JStr ''payment_required''), Some (JStr ''api_error''),
                  Some (JStr ''timeout''), Some (JStr ''http_error'')}
        \<and> configured (API_BACKUP_URLS e) \<noteq> []"
    then have "needs_fallback r = Inr True" by (simp only: needs_fallback_iff)
    with k first show "Http_get (hd (configured (API_BACKUP_URLS e)) @ ''/'' @ placa)
        \<in> set (snd (snd (consultar_placa e placa st)))"
      by (simp add: tr)
  }
  show "Call_backup placa \<in> set (snd (snd (consultar_placa e placa st)))
      \<longleftrightarrow> erro_kind r \<in> {Some (JStr ''payment_required''), Some (JStr ''api_error''),
                  Some (JStr ''timeout''), Some (JStr ''http_error'')}"
  proof (cases "needs_fallback r = Inr True")
    case True
    then have "erro_kind r \<in> {Some (JStr ''payment_required''), Some (JStr ''api_error''),
                  Some (JStr ''timeout''), Some (JStr ''http_error'')}"
      by (simp only: needs_fallback_iff)
    with True show ?thesis by (simp add: tr)
  next
    case False
    then have "erro_kind r \<notin> {Some (JStr ''payment_required''), Some (JStr ''api_error''),
                  Some (JStr ''timeout''), Some (JStr ''http_error'')}"
      by (simp only: needs_fallback_iff not_False_eq_True)
    with False show ?thesis by (simp add: tr evs)
  qed
qed

theorem fallback_gating_witness:
  "cache_getitem (cache_principal initial_state) (clock initial_state) (''placa_'' @ ''ABC1234'') = None
   \<and> cache_getitem (cache_erros initial_state) (clock initial_state) (''error_'' @ ''ABC1234'') = None
   \<and> consultar_api_principal timeout_env ''ABC1234''
       = Inr (failure ''timeout'' ''Timeout na consulta'', [Http_get ''https://api/ABC1234/tok''], 15)
   \<and> erro_kind (failure ''timeout'' ''Timeout na consulta'') = Some (JStr ''timeout'')
   \<and> Call_backup ''ABC1234'' \<in> set (snd (snd (consultar_placa timeout_env ''ABC1234'' initial_state)))"
proof -
  have m1: "cache_getitem (cache_principal initial_state) (clock initial_state)
      (''placa_'' @ ''ABC1234'') = None"
    by (simp add: initial_state_def cache_getitem_def)
  have m2: "cache_getitem (cache_erros initial_state) (clock initial_state)
      (''error_'' @ ''ABC1234'') = None"
    by (simp add: initial_state_def cache_getitem_def)
  have p: "consultar_api_principal timeout_env ''ABC1234''
       = Inr (failure ''timeout'' ''Timeout na consulta'', [Http_get ''https://api/ABC1234/tok''], 15)"
    by code_simp
  have k: "erro_kind (failure ''timeout'' ''Timeout na consulta'') = Some (JStr ''timeout'')"
    by (simp add: failure_def)
  from fallback_gating[OF m1 m2, of timeout_env] p k
  have "Call_backup ''ABC1234'' \<in> set (snd (snd (consultar_placa timeout_env ''ABC1234'' initial_state)))"
    by simp
  with m1 m2 p k show ?thesis by simp
qed

lemma backup_loop_first_body:
  assumes "get_http_client e = None" and "u \<noteq> []"
    and "\<forall>v\<in>set (configured pre). fst (backup_attempt e (v @ ''/'' @ placa)) = None"
    and "fst (backup_attempt e (u @ ''/'' @ placa)) = Some body"
  shows "fst (backup_loop e placa (pre @ Some u # post)) = body
       \<and> fst (snd (backup_loop e placa (pre @ Some u # post)))
         = map (\<lambda>v. Http_get (v @ ''/'' @ placa)) (configured pre @ [u])"
  using assms(3)
proof (induction pre rule: backup_loop_induct[where e = e and placa = placa])
  case Nil
  obtain evs_a d where "backup_attempt e (u @ ''/'' @ placa) = (Some body, evs_a, d)"
    using assms(4) by (cases "backup_attempt e (u @ ''/'' @ placa)") simp
  moreover from this assms(1) have "evs_a = [Http_get (u @ ''/'' @ placa)]"
    using backup_attempt_events[of e "u @ ''/'' @ placa"] by simp
  ultimately show ?case using assms(2) by (simp add: backup_loop_hit)
next
  case (Hit s rest b evs_a d)
  then show ?case by simp
next
  case (Skip s rest evs_a d)
  from Skip(2) assms(1) have a: "evs_a = [Http_get (s @ ''/'' @ placa)]"
    using backup_attempt_events[of e "s @ ''/'' @ placa"] by simp
  obtain res evs d' where r: "backup_loop e placa (rest @ Some u # post) = (res, evs, d')"
    by (cases "backup_loop e placa (rest @ Some u # post)")
  from Skip have "fst (backup_loop e placa (rest @ Some u # post)) = body
       \<and> fst (snd (backup_loop e placa (rest @ Some u # post)))
         = map (\<lambda>v. Http_get (v @ ''/'' @ placa)) (configured rest @ [u])" by simp
  with r have "res = body" "evs = map (\<lambda>v. Http_get (v @ ''/'' @ placa)) (configured rest @ [u])"
    by simp_all
  with Skip(1,2) r a show ?case by (simp add: backup_loop_skip)
qed simp_all

text \<open>
  When every configured backup is passed over or answers with a body that carries \<open>erro\<close>,
  the failure of the primary source is returned and stored, as the comment at lines 175
  to 177 says.
\<close>

lemma backup_all_marked:
  assumes "\<forall>u\<in>set (configured urls).
      fst (backup_attempt e (u @ ''/'' @ placa)) = None
      \<or> (\<exists>body. fst (backup_attempt e (u @ ''/'' @ placa)) = Some body \<and> erro_in body = Inr True)"
  shows "erro_in (fst (backup_loop e placa urls)) = Inr True"
  using assms
proof (induction urls rule: backup_loop_induct[where e = e and placa = placa])
  case Nil
  show ?case by (simp add: failure_def has_key_def)
next
  case (Hit s rest body evs_a d)
  then show ?case by (simp add: backup_loop_hit)
next
  case (Skip s rest evs_a d)
  obtain res evs d' where "backup_loop e placa rest = (res, evs, d')"
    by (cases "backup_loop e placa rest")
  with Skip show ?case by (simp add: backup_loop_skip)
qed simp_all

lemma primary_failure_kept:
  assumes "cache_getitem (cache_principal st) (clock st) (''placa_'' @ placa) = None"
    and "cache_getitem (cache_erros st) (clock st) (''error_'' @ placa) = None"
    and "consultar_api_principal e placa = Inr (r, evs, d)"
    and "erro_kind r \<in> {Some (JStr ''payment_required''), Some (JStr ''api_error''),
              Some (JStr ''timeout''), Some (JStr ''http_error'')}"
    and "\<forall>u\<in>set (configured (API_BACKUP_URLS e)).
      fst (backup_attempt e (u @ ''/'' @ placa)) = None
      \<or> (\<exists>body. fst (backup_attempt e (u @ ''/'' @ placa)) = Some body \<and> erro_in body = Inr True)"
  shows "fst (consultar_placa e placa st) = Inr r
       \<and> cache_getitem (cache_erros (fst (snd (consultar_placa e placa st))))
            (clock (fst (snd (consultar_placa e placa st)))) (''error_'' @ placa) = Some r
       \<and> cache_principal (fst (snd (consultar_placa e placa st))) = cache_principal st"
proof -
  obtain rb evs_b d_b where b: "consultar_apis_backup e placa = (rb, evs_b, d_b)"
    by (cases "consultar_apis_backup e placa")
  from assms(4) have nf: "needs_fallback r = Inr True" by (simp only: needs_fallback_iff)
  from assms(5) b have rb: "erro_in rb = Inr True"
    using backup_all_marked[of "API_BACKUP_URLS e" e placa] by (simp add: consultar_apis_backup_def)
  from nf rb have cp: "consultar_placa e placa st =
      (Inr r, set_erros st (clock st + d + d_b) (''error_'' @ placa) r,
       Call_principal placa # evs @ Call_backup placa # evs_b)"
    by (simp add: consultar_placa_miss[OF assms(1,2,3) b])
  have "cache_principal (set_erros st (clock st + d + d_b) (''error_'' @ placa) r)
      = cache_principal st" by (simp add: set_erros_def)
  then show ?thesis by (simp add: cp getitem_set_erros)
qed

text \<open>
  Claim C2. The claim is what the comment at lines 175 to 177 says, and the code misses a
  case of it: in \<open>null_body_env\<close> the primary source answers 402, the first backup answers
  200 with the body \<open>null\<close> and the second is down, so no configured backup returns a
  Record; the test \<open>"erro" not in resultado_backup\<close> of line 171 raises \<open>TypeError\<close>, the
  failure of the primary source is neither returned nor stored in \<open>cache_erros\<close>.
\<close>

theorem null_backup_body_raises:
  "consultar_api_principal null_body_env ''ABC1234''
     = Inr (failure ''payment_required''
              ''Servico temporariamente indisponivel - Creditos esgotados'',
            [Http_get ''https://api/ABC1234/tok''], 1)
   \<and> configured (API_BACKUP_URLS null_body_env) = [''https://b1'', ''https://b2'']
   \<and> \<not> backup_returns_record null_body_env ''https://b1/ABC1234''
   \<and> \<not> backup_returns_record null_body_env ''https://b2/ABC1234''
   \<and> consultar_apis_backup null_body_env ''ABC1234'' = (JNull, [Http_get ''https://b1/ABC1234''], 1)
   \<and> erro_in JNull = Inl TypeError
   \<and> fst (consultar_placa null_body_env ''ABC1234'' initial_state) = Inl TypeError
   \<and> cache_erros (fst (snd (consultar_placa null_body_env ''ABC1234'' initial_state))) = []
   \<and> fst (handle_message null_body_env (Some ''ABC1234'') initial_state) = Internal_error"
  by code_simp

text \<open>
  Claim C3, as stated, fails: in \<open>error_body_env\<close> the primary source times out, the first
  backup answers 200 with a body that carries \<open>erro\<close>, and the second backup is the first
  that returns a Record; the lookup returns the timeout of the primary source and stores
  no Record.
\<close>

theorem first_record_not_reached:
  "\<not> backup_returns_record error_body_env ''https://b1/ABC1234''
   \<and> backup_returns_record error_body_env ''https://b2/ABC1234''
   \<and> fst (consultar_placa error_body_env ''ABC1234'' initial_state)
       = Inr (failure ''timeout'' ''Timeout na consulta'')
   \<and> cache_principal (fst (snd (consultar_placa error_body_env ''ABC1234'' initial_state))) = []
   \<and> snd (snd (consultar_placa error_body_env ''ABC1234'' initial_state))
       = [Call_principal ''ABC1234'', Http_get ''https://api/ABC1234/tok'',
          Call_backup ''ABC1234'', Http_get ''https://b1/ABC1234'']"
  by code_simp

text \<open>
  Claim C3, amended. During fallback the configured backups are requested one after the
  other in the order of \<open>API_BACKUP_URLS\<close>. When every configured backup before \<open>u\<close> is
  passed over (an exception, a status other than 200, or a body that cannot be decoded)
  and \<open>u\<close> returns a Record (more generally, a body on which the test \<open>"erro" in\<close> is
  false), the scan stops at \<open>u\<close>, that body is returned and stored in \<open>cache_principal\<close>,
  and \<open>cache_erros\<close> is left as it was.
\<close>

theorem first_record_backup_wins:
  assumes "cache_getitem (cache_principal st) (clock st) (''placa_'' @ placa) = None"
    and "cache_getitem (cache_erros st) (clock st) (''error_'' @ placa) = None"
    and "consultar_api_principal e placa = Inr (r, evs, d)"
    and "erro_kind r \<in> {Some (JStr ''payment_required''), Some (JStr ''api_error''),
              Some (JStr ''timeout''), Some (JStr ''http_error'')}"
    and "API_BACKUP_URLS e = pre @ Some u # post" and "u \<noteq> []"
    and "\<forall>v\<in>set (configured pre). fst (backup_attempt e (v @ ''/'' @ placa)) = None"
    and "fst (backup_attempt e (u @ ''/'' @ placa)) = Some body"
    and "erro_in body = Inr False"
  shows "fst (consultar_placa e placa st) = Inr body
       \<and> cache_getitem (cache_principal (fst (snd (consultar_placa e placa st))))
            (clock (fst (snd (consultar_placa e placa st)))) (''placa_'' @ placa) = Some body
       \<and> cache_erros (fst (snd (consultar_placa e placa st))) = cache_erros st
       \<and> snd (snd (consultar_placa e placa st))
          = [Call_principal placa, Http_get (primary_url e placa), Call_backup placa]
            @ map (\<lambda>v. Http_get (v @ ''/'' @ placa)) (configured pre @ [u])"
proof -
  obtain rb evs_b d_b where b: "consultar_apis_backup e placa = (rb, evs_b, d_b)"
    by (cases "consultar_apis_backup e placa")
  from assms(3) have client: "get_http_client e = None"
    and evs: "evs = [Http_get (primary_url e placa)]"
    by (rule principal_returns)+
  from assms(4) have nf: "needs_fallback r = Inr True" by (simp only: needs_fallback_iff)
  from backup_loop_first_body[OF client assms(6,7,8), of post] b assms(5)
  have rb: "rb = body" "evs_b = map (\<lambda>v. Http_get (v @ ''/'' @ placa)) (configured pre @ [u])"
    by (simp_all add: consultar_apis_backup_def)
  from nf rb(1) assms(9) have cp: "consultar_placa e placa st =
      (Inr body, set_principal st (clock st + d + d_b) (''placa_'' @ placa) body,
       Call_principal placa # evs @ Call_backup placa # evs_b)"
    by (simp add: consultar_placa_miss[OF assms(1,2,3) b])
  have "cache_erros (set_principal st (clock st + d + d_b) (''placa_'' @ placa) body)
      = cache_erros st" by (simp add: set_principal_def)
  then show ?thesis by (simp add: cp evs rb(2) getitem_set_principal)
qed

theorem first_record_backup_wins_witness:
  "consultar_api_principal timeout_env ''ABC1234''
     = Inr (failure ''timeout'' ''Timeout na consulta'', [Http_get ''https://api/ABC1234/tok''], 15)
   \<and> API_BACKUP_URLS timeout_env = [Some ''https://b1''] @ Some ''https://b2'' # []
   \<and> list_all (\<lambda>v. fst (backup_attempt timeout_env (v @ ''/'' @ ''ABC1234'')) = None)
        (configured [Some ''https://b1''])
   \<and> fst (backup_attempt timeout_env (''https://b2'' @ ''/'' @ ''ABC1234'')) = Some civic
   \<and> is_record civic
   \<and> fst (consultar_placa timeout_env ''ABC1234'' initial_state) = Inr civic
   \<and> snd (snd (consultar_placa timeout_env ''ABC1234'' initial_state))
       = [Call_principal ''ABC1234'', Http_get (primary_url timeout_env ''ABC1234''),
          Call_backup ''ABC1234'']
         @ map (\<lambda>v. Http_get (v @ ''/'' @ ''ABC1234'')) (configured [Some ''https://b1''] @ [''https://b2''])"
proof -
  have m1: "cache_getitem (cache_principal initial_state) (clock initial_state)
      (''placa_'' @ ''ABC1234'') = None"
    by (simp add: initial_state_def cache_getitem_def)
  have m2: "cache_getitem (cache_erros initial_state) (clock initial_state)
      (''error_'' @ ''ABC1234'') = None"
    by (simp add: initial_state_def cache_getitem_def)
  have p: "consultar_api_principal timeout_env ''ABC1234''
     = Inr (failure ''timeout'' ''Timeout na consulta'', [Http_get ''https://api/ABC1234/tok''], 15)"
    by code_simp
  have k: "erro_kind (failure ''timeout'' ''Timeout na consulta'')
           \<in> {Some (JStr ''payment_required''), Some (JStr ''api_error''),
              Some (JStr ''timeout''), Some (JStr ''http_error'')}"
    by (simp add: failure_def)
  have urls: "API_BACKUP_URLS timeout_env = [Some ''https://b1''] @ Some ''https://b2'' # []"
    by (simp add: timeout_env_def example_env_def)
  have u: "''https://b2'' \<noteq> []" by simp
  have l: "list_all (\<lambda>v. fst (backup_attempt timeout_env (v @ ''/'' @ ''ABC1234'')) = None)
        (configured [Some ''https://b1''])"
    by code_simp
  then have pre: "\<forall>v\<in>set (configured [Some ''https://b1'']).
      fst (backup_attempt timeout_env (v @ ''/'' @ ''ABC1234'')) = None"
    by (simp only: list_all_iff)
  have hit: "fst (backup_attempt timeout_env (''https://b2'' @ ''/'' @ ''ABC1234'')) = Some civic"
    by code_simp
  have rec: "erro_in civic = Inr False" by (simp add: civic_def has_key_def)
  have rec': "is_record civic" by (simp add: civic_def has_key_def)
  from first_record_backup_wins[OF m1 m2 p k urls u pre hit rec] p urls l hit rec'
  show ?thesis by simp
qed

lemma not_200_skipped:
  "\<not> responds_200 (http_get e url) \<Longrightarrow> fst (backup_attempt e url) = None"
  by (cases "http_get e url")
     (auto simp: responds_200_def backup_attempt_def split: sum.splits option.splits)

text \<open>
  Claim C10, as stated, fails: in \<open>bad_body_env\<close> the first backup responds with status
  200 and a body that is not JSON; the loop passes over it and requests the second
  backup, whose body it returns.
\<close>

theorem first_200_passed_over:
  "responds_200 (http_get bad_body_env ''https://b1/ABC1234'')
   \<and> fst (backup_attempt bad_body_env ''https://b1/ABC1234'') = None
   \<and> consultar_apis_backup bad_body_env ''ABC1234''
       = (civic, [Http_get ''https://b1/ABC1234'', Http_get ''https://b2/ABC1234''], 2)
   \<and> fst (consultar_placa bad_body_env ''ABC1234'' initial_state) = Inr civic"
  by code_simp

text \<open>
  Claim C10, amended. The backup loop returns the decoded body of the first configured
  backup that responds with status 200 and a body that decodes, whatever the body holds,
  and requests no later backup; a backup that responds 200 with a body that does not
  decode is passed over like one that fails. When the returned body carries \<open>erro\<close>,
  \<open>consultar_placa\<close> returns the failure of the primary source and stores it in
  \<open>cache_erros\<close>, and \<open>cache_principal\<close> is left as it was.
\<close>

theorem first_200_backup_ends_scan:
  assumes "cache_getitem (cache_principal st) (clock st) (''placa_'' @ placa) = None"
    and "cache_getitem (cache_erros st) (clock st) (''error_'' @ placa) = None"
    and "consultar_api_principal e placa = Inr (r, evs, d)"
    and "erro_kind r \<in> {Some (JStr ''payment_required''), Some (JStr ''api_error''),
              Some (JStr ''timeout''), Some (JStr ''http_error'')}"
    and "API_BACKUP_URLS e = pre @ Some u # post" and "u \<noteq> []"
    and "\<forall>v\<in>set (configured pre). fst (backup_attempt e (v @ ''/'' @ placa)) = None"
    and "fst (http_get e (u @ ''/'' @ placa)) = Inr resp"
    and "status_code resp = 200" and "json resp = Some body"
  shows "fst (consultar_apis_backup e placa) = body
       \<and> fst (snd (consultar_apis_backup e placa))
          = map (\<lambda>v. Http_get (v @ ''/'' @ placa)) (configured pre @ [u])
       \<and> (erro_in body = Inr True \<longrightarrow>
            fst (consultar_placa e placa st) = Inr r
          \<and> cache_getitem (cache_erros (fst (snd (consultar_placa e placa st))))
               (clock (fst (snd (consultar_placa e placa st)))) (''error_'' @ placa) = Some r
          \<and> cache_principal (fst (snd (consultar_placa e placa st))) = cache_principal st
          \<and> snd (snd (consultar_placa e placa st))
             = [Call_principal placa, Http_get (primary_url e placa), Call_backup placa]
               @ map (\<lambda>v. Http_get (v @ ''/'' @ placa)) (configured pre @ [u]))"
proof -
  obtain rb evs_b d_b where b: "consultar_apis_backup e placa = (rb, evs_b, d_b)"
    by (cases "consultar_apis_backup e placa")
  from assms(3) have client: "get_http_client e = None"
    and evs: "evs = [Http_get (primary_url e placa)]"
    by (rule principal_returns)+
  from assms(4) have nf: "needs_fallback r = Inr True" by (simp only: needs_fallback_iff)
  from assms(8,9,10) client have hit: "fst (backup_attempt e (u @ ''/'' @ placa)) = Some body"
    by (cases "http_get e (u @ ''/'' @ placa)") (simp add: backup_attempt_def)
  from backup_loop_first_body[OF client assms(6,7) hit, of post] b assms(5)
  have rb: "rb = body" "evs_b = map (\<lambda>v. Http_get (v @ ''/'' @ placa)) (configured pre @ [u])"
    by (simp_all add: consultar_apis_backup_def)
  have scan: "fst (consultar_apis_backup e placa) = body
       \<and> fst (snd (consultar_apis_backup e placa))
          = map (\<lambda>v. Http_get (v @ ''/'' @ placa)) (configured pre @ [u])"
    using b rb by simp
  have "fst (consultar_placa e placa st) = Inr r
          \<and> cache_getitem (cache_erros (fst (snd (consultar_placa e placa st))))
               (clock (fst (snd (consultar_placa e placa st)))) (''error_'' @ placa) = Some r
          \<and> cache_principal (fst (snd (consultar_placa e placa st))) = cache_principal st
          \<and> snd (snd (consultar_placa e placa st))
             = [Call_principal placa, Http_get (primary_url e placa), Call_backup placa]
               @ map (\<lambda>v. Http_get (v @ ''/'' @ placa)) (configured pre @ [u])"
    if erro: "erro_in body = Inr True"
  proof -
    from nf rb(1) erro have cp: "consultar_placa e placa st =
        (Inr r, set_erros st (clock st + d + d_b) (''error_'' @ placa) r,
         Call_principal placa # evs @ Call_backup placa # evs_b)"
      by (simp add: consultar_placa_miss[OF assms(1,2,3) b])
    have "cache_principal (set_erros st (clock st + d + d_b) (''error_'' @ placa) r)
        = cache_principal st" by (simp add: set_erros_def)
    then show ?thesis by (simp add: cp evs rb(2) getitem_set_erros)
  qed
  with scan show ?thesis by blast
qed

theorem first_200_backup_ends_scan_witness:
  "consultar_api_principal error_body_env ''ABC1234''
     = Inr (failure ''timeout'' ''Timeout na consulta'', [Http_get ''https://api/ABC1234/tok''], 15)
   \<and> API_BACKUP_URLS error_body_env = [] @ Some ''https://b1'' # [Some ''https://b2'']
   \<and> fst (http_get error_body_env (''https://b1'' @ ''/'' @ ''ABC1234''))
       = Inr \<lparr>status_code = 200, json = Some sem_dados\<rparr>
   \<and> erro_in sem_dados = Inr True
   \<and> backup_returns_record error_body_env (''https://b2'' @ ''/'' @ ''ABC1234'')
   \<and> fst (consultar_apis_backup error_body_env ''ABC1234'') = sem_dados
   \<and> fst (consultar_placa error_body_env ''ABC1234'' initial_state)
       = Inr (failure ''timeout'' ''Timeout na consulta'')
   \<and> snd (snd (consultar_placa error_body_env ''ABC1234'' initial_state))
       = [Call_principal ''ABC1234'', Http_get (primary_url error_body_env ''ABC1234''),
          Call_backup ''ABC1234'']
         @ map (\<lambda>v. Http_get (v @ ''/'' @ ''ABC1234'')) (configured [] @ [''https://b1''])
   \<and> API_BACKUP_URLS late_error_env = [Some ''https://b1''] @ Some ''https://b2'' # []
   \<and> responds_200 (http_get late_error_env ''https://b1/ABC1234'')
   \<and> list_all (\<lambda>v. fst (backup_attempt late_error_env (v @ ''/'' @ ''ABC1234'')) = None)
        (configured [Some ''https://b1''])
   \<and> fst (consultar_apis_backup late_error_env ''ABC1234'') = sem_dados
   \<and> fst (snd (consultar_apis_backup late_error_env ''ABC1234''))
       = map (\<lambda>v. Http_get (v @ ''/'' @ ''ABC1234'')) (configured [Some ''https://b1''] @ [''https://b2''])
   \<and> fst (consultar_placa late_error_env ''ABC1234'' initial_state)
       = Inr (failure ''timeout'' ''Timeout na consulta'')"
proof -
  have m1: "cache_getitem (cache_principal initial_state) (clock initial_state)
      (''placa_'' @ ''ABC1234'') = None"
    by (simp add: initial_state_def cache_getitem_def)
  have m2: "cache_getitem (cache_erros initial_state) (clock initial_state)
      (''error_'' @ ''ABC1234'') = None"
    by (simp add: initial_state_def cache_getitem_def)
  have p: "consultar_api_principal error_body_env ''ABC1234''
     = Inr (failure ''timeout'' ''Timeout na consulta'', [Http_get ''https://api/ABC1234/tok''], 15)"
    by code_simp
  have k: "erro_kind (failure ''timeout'' ''Timeout na consulta'')
           \<in> {Some (JStr ''payment_required''), Some (JStr ''api_error''),
              Some (JStr ''timeout''), Some (JStr ''http_error'')}"
    by (simp add: failure_def)
  have urls: "API_BACKUP_URLS error_body_env = [] @ Some ''https://b1'' # [Some ''https://b2'']"
    by (simp add: error_body_env_def example_env_def)
  have u: "''https://b1'' \<noteq> []" by simp
  have pre: "\<forall>v\<in>set (configured []).
      fst (backup_attempt error_body_env (v @ ''/'' @ ''ABC1234'')) = None" by simp
  have g: "fst (http_get error_body_env (''https://b1'' @ ''/'' @ ''ABC1234''))
       = Inr \<lparr>status_code = 200, json = Some sem_dados\<rparr>"
    by (simp add: error_body_env_def example_env_def ok_response_def)
  have sc: "status_code \<lparr>status_code = 200, json = Some sem_dados\<rparr> = 200"
    by simp
  have js: "json \<lparr>status_code = 200, json = Some sem_dados\<rparr> = Some sem_dados" by simp
  have erro: "erro_in sem_dados = Inr True" by (simp add: sem_dados_def has_key_def)
  have later: "backup_returns_record error_body_env (''https://b2'' @ ''/'' @ ''ABC1234'')"
    by code_simp
  have p2: "consultar_api_principal late_error_env ''ABC1234''
     = Inr (failure ''timeout'' ''Timeout na consulta'', [Http_get ''https://api/ABC1234/tok''], 15)"
    by code_simp
  have urls2: "API_BACKUP_URLS late_error_env = [Some ''https://b1''] @ Some ''https://b2'' # []"
    by (simp add: late_error_env_def example_env_def)
  have u2: "''https://b2'' \<noteq> []" by simp
  have r2: "responds_200 (http_get late_error_env ''https://b1/ABC1234'')" by code_simp
  have l2: "list_all (\<lambda>v. fst (backup_attempt late_error_env (v @ ''/'' @ ''ABC1234'')) = None)
        (configured [Some ''https://b1''])"
    by code_simp
  then have pre2: "\<forall>v\<in>set (configured [Some ''https://b1'']).
      fst (backup_attempt late_error_env (v @ ''/'' @ ''ABC1234'')) = None"
    by (simp only: list_all_iff)
  have g2: "fst (http_get late_error_env (''https://b2'' @ ''/'' @ ''ABC1234''))
       = Inr \<lparr>status_code = 200, json = Some sem_dados\<rparr>"
    by (simp add: late_error_env_def example_env_def ok_response_def)
  from first_200_backup_ends_scan[OF m1 m2 p2 k urls2 u2 pre2 g2 sc js] erro
  have second: "fst (consultar_apis_backup late_error_env ''ABC1234'') = sem_dados
     \<and> fst (snd (consultar_apis_backup late_error_env ''ABC1234''))
       = map (\<lambda>v. Http_get (v @ ''/'' @ ''ABC1234'')) (configured [Some ''https://b1''] @ [''https://b2''])
     \<and> fst (consultar_placa late_error_env ''ABC1234'' initial_state)
       = Inr (failure ''timeout'' ''Timeout na consulta'')"
    by simp
  from first_200_backup_ends_scan[OF m1 m2 p k urls u pre g sc js] erro p urls g later
  have first: "fst (consultar_apis_backup error_body_env ''ABC1234'') = sem_dados
   \<and> fst (consultar_placa error_body_env ''ABC1234'' initial_state)
       = Inr (failure ''timeout'' ''Timeout na consulta'')
   \<and> snd (snd (consultar_placa error_body_env ''ABC1234'' initial_state))
       = [Call_principal ''ABC1234'', Http_get (primary_url error_body_env ''ABC1234''),
          Call_backup ''ABC1234'']
         @ map (\<lambda>v. Http_get (v @ ''/'' @ ''ABC1234'')) (configured [] @ [''https://b1''])"
    by simp
  from first second p urls g erro later urls2 r2 l2 show ?thesis by (simp only: simp_thms)
qed

lemma consultar_placa_hit_principal:
  assumes "cache_getitem (cache_principal st) (clock st) (''placa_'' @ placa) = Some r"
  shows "consultar_placa e placa st = (Inr r, st, [])"
  using assms by (simp add: consultar_placa_def Let_def)

lemma consultar_placa_hit_erros:
  assumes "cache_getitem (cache_principal st) (clock st) (''placa_'' @ placa) = None"
    and "cache_getitem (cache_erros st) (clock st) (''error_'' @ placa) = Some r"
  shows "consultar_placa e placa st = (Inr r, st, [])"
  using assms by (simp add: consultar_placa_def Let_def)

text \<open>
  A lookup on an identifier that neither cache held and that returns a result has
  written that result: to \<open>cache_erros\<close> when it carries \<open>erro\<close>, to \<open>cache_principal\<close> when
  it does not.
\<close>

lemma consultar_placa_written:
  assumes m1: "cache_getitem (cache_principal st) (clock st) (''placa_'' @ placa) = None"
    and m2: "cache_getitem (cache_erros st) (clock st) (''error_'' @ placa) = None"
    and cp: "consultar_placa e placa st = (Inr r, st1, evs)"
  shows "\<exists>now. clock st \<le> now
       \<and> ((erro_in r = Inr True \<and> st1 = set_erros st now (''error_'' @ placa) r)
          \<or> (erro_in r = Inr False \<and> st1 = set_principal st now (''placa_'' @ placa) r))"
proof (cases "consultar_api_principal e placa")
  case (Inl x)
  with cp show ?thesis by (simp add: consultar_placa_raises[OF m1 m2])
next
  case (Inr res)
  obtain r0 evs0 d where p: "consultar_api_principal e placa = Inr (r0, evs0, d)"
    using Inr by (cases res) simp
  obtain rb evs_b d_b where b: "consultar_apis_backup e placa = (rb, evs_b, d_b)"
    by (cases "consultar_apis_backup e placa")
  note eq = consultar_placa_miss[OF m1 m2 p b]
  show ?thesis
  proof (cases "needs_fallback r0")
    case (Inl x)
    with eq cp show ?thesis by simp
  next
    case nf: (Inr go)
    show ?thesis
    proof (cases go)
      case True
      with nf have marked: "erro_in r0 = Inr True" by (simp add: needs_fallback_marked)
      show ?thesis
      proof (cases "erro_in rb")
        case (Inl x)
        with eq cp nf True show ?thesis by simp
      next
        case (Inr mb)
        show ?thesis
        proof (cases mb)
          case True
          with eq cp nf \<open>go\<close> Inr
          have "r = r0" "st1 = set_erros st (clock st + d + d_b) (''error_'' @ placa) r0"
            by simp_all
          with marked show ?thesis by (intro exI[of _ "clock st + d + d_b"]) simp
        next
          case False
          with eq cp nf \<open>go\<close> Inr
          have "r = rb" "st1 = set_principal st (clock st + d + d_b) (''placa_'' @ placa) rb"
            by simp_all
          with Inr False show ?thesis by (intro exI[of _ "clock st + d + d_b"]) simp
        qed
      qed
    next
      case False
      show ?thesis
      proof (cases "erro_in r0")
        case (Inl x)
        with eq cp nf False show ?thesis by simp
      next
        case (Inr m0)
        show ?thesis
        proof (cases m0)
          case True
          with eq cp nf \<open>\<not> go\<close> Inr
          have "r = r0" "st1 = set_erros st (clock st + d) (''error_'' @ placa) r0"
            by simp_all
          with Inr True show ?thesis by (intro exI[of _ "clock st + d"]) simp
        next
          case m: False
          with eq cp nf \<open>\<not> go\<close> Inr
          have "r = r0" "st1 = set_principal st (clock st + d) (''placa_'' @ placa) r0"
            by simp_all
          with Inr m show ?thesis by (intro exI[of _ "clock st + d"]) simp
        qed
      qed
    qed
  qed
qed

lemma consultar_placa_stores:
  assumes m1: "cache_getitem (cache_principal st) (clock st) (''placa_'' @ placa) = None"
    and m2: "cache_getitem (cache_erros st) (clock st) (''error_'' @ placa) = None"
    and cp: "consultar_placa e placa st = (Inr r, st1, evs)"
  shows "clock st \<le> clock st1
       \<and> (if erro_in r = Inr True
          then cache_principal st1 = cache_principal st
             \<and> (\<forall>t. t < clock st1 + 300
                  \<longrightarrow> cache_getitem (cache_erros st1) t (''error_'' @ placa) = Some r)
          else (\<forall>t. t < clock st1 + 1800
                  \<longrightarrow> cache_getitem (cache_principal st1) t (''placa_'' @ placa) = Some r))"
proof -
  from consultar_placa_written[OF assms] obtain now where now: "clock st \<le> now"
    and w: "(erro_in r = Inr True \<and> st1 = set_erros st now (''error_'' @ placa) r)
          \<or> (erro_in r = Inr False \<and> st1 = set_principal st now (''placa_'' @ placa) r)"
    by blast
  from w show ?thesis
  proof
    assume "erro_in r = Inr True \<and> st1 = set_erros st now (''error_'' @ placa) r"
    with now show ?thesis by (simp add: set_erros_def getitem_setitem)
  next
    assume "erro_in r = Inr False \<and> st1 = set_principal st now (''placa_'' @ placa) r"
    with now show ?thesis by (simp add: set_principal_def getitem_setitem)
  qed
qed

text \<open>
  Claim C4. A live entry of \<open>cache_principal\<close> is returned as it is, and otherwise a live
  entry of \<open>cache_erros\<close>, in both cases with no call and no change of state. Hence after a
  lookup on an identifier that neither cache held and that returned a result, a second
  lookup of the same identifier, whatever the network then answers, returns the same
  result with no call as long as it comes less than 1800 seconds (a Record) or 300
  seconds (a failure) after the first one ended.
\<close>

theorem cache_precedence:
  "(\<forall>r. cache_getitem (cache_principal st) (clock st) (''placa_'' @ placa) = Some r
        \<longrightarrow> consultar_placa e placa st = (Inr r, st, []))
   \<and> (\<forall>r. cache_getitem (cache_principal st) (clock st) (''placa_'' @ placa) = None
         \<and> cache_getitem (cache_erros st) (clock st) (''error_'' @ placa) = Some r
        \<longrightarrow> consultar_placa e placa st = (Inr r, st, []))
   \<and> (\<forall>r st1 evs wait e'.
         cache_getitem (cache_principal st) (clock st) (''placa_'' @ placa) = None
         \<and> cache_getitem (cache_erros st) (clock st) (''error_'' @ placa) = None
         \<and> consultar_placa e placa st = (Inr r, st1, evs)
         \<and> wait < (if erro_in r = Inr True then 300 else 1800)
        \<longrightarrow> consultar_placa e' placa (st1\<lparr>clock := clock st1 + wait\<rparr>)
             = (Inr r, st1\<lparr>clock := clock st1 + wait\<rparr>, []))"
proof (intro conjI allI impI)
  fix r
  assume "cache_getitem (cache_principal st) (clock st) (''placa_'' @ placa) = Some r"
  then show "consultar_placa e placa st = (Inr r, st, [])" by (rule consultar_placa_hit_principal)
next
  fix r
  assume "cache_getitem (cache_principal st) (clock st) (''placa_'' @ placa) = None
        \<and> cache_getitem (cache_erros st) (clock st) (''error_'' @ placa) = Some r"
  then show "consultar_placa e placa st = (Inr r, st, [])"
    using consultar_placa_hit_erros by blast
next
  fix r :: jval and st1 :: state and evs :: "event list" and wait :: nat and e' :: env
  assume a: "cache_getitem (cache_principal st) (clock st) (''placa_'' @ placa) = None
         \<and> cache_getitem (cache_erros st) (clock st) (''error_'' @ placa) = None
         \<and> consultar_placa e placa st = (Inr r, st1, evs)
         \<and> wait < (if erro_in r = Inr True then 300 else 1800)"
  let ?st2 = "st1\<lparr>clock := clock st1 + wait\<rparr>"
  from a have m1: "cache_getitem (cache_principal st) (clock st) (''placa_'' @ placa) = None"
    and m2: "cache_getitem (cache_erros st) (clock st) (''error_'' @ placa) = None"
    and cp: "consultar_placa e placa st = (Inr r, st1, evs)" by simp_all
  note stored = consultar_placa_stores[OF m1 m2 cp]
  show "consultar_placa e' placa ?st2 = (Inr r, ?st2, [])"
  proof (cases "erro_in r = Inr True")
    case True
    with a have w: "wait < 300" by simp
    from stored True have same: "cache_principal st1 = cache_principal st"
      and live: "cache_getitem (cache_erros st1) (clock st1 + wait) (''error_'' @ placa) = Some r"
      and later: "clock st \<le> clock st1 + wait"
      using w by simp_all
    from m1 later have "cache_getitem (cache_principal st) (clock st1 + wait) (''placa_'' @ placa) = None"
      by (rule getitem_later)
    with same have "cache_getitem (cache_principal ?st2) (clock ?st2) (''placa_'' @ placa) = None"
      by simp
    moreover from live have "cache_getitem (cache_erros ?st2) (clock ?st2) (''error_'' @ placa) = Some r"
      by simp
    ultimately show ?thesis by (rule consultar_placa_hit_erros)
  next
    case False
    with a have w: "wait < 1800" by simp
    from stored False w
    have "cache_getitem (cache_principal st1) (clock st1 + wait) (''placa_'' @ placa) = Some r"
      by simp
    then have "cache_getitem (cache_principal ?st2) (clock ?st2) (''placa_'' @ placa) = Some r"
      by simp
    then show ?thesis by (rule consultar_placa_hit_principal)
  qed
qed

theorem cache_precedence_witness:
  "cache_getitem (cache_principal initial_state) (clock initial_state) (''placa_'' @ ''ABC1234'') = None
   \<and> cache_getitem (cache_erros initial_state) (clock initial_state) (''error_'' @ ''ABC1234'') = None
   \<and> consultar_placa found_env ''ABC1234'' initial_state
       = (Inr civic,
          \<lparr>cache_principal = [(''placa_ABC1234'', civic, 1801)],
             cache_erros = [], cache_inline = [], clock = 1\<rparr>,
          [Call_principal ''ABC1234'', Http_get ''https://api/ABC1234/tok''])
   \<and> consultar_placa all_down_env ''ABC1234''
        \<lparr>cache_principal = [(''placa_ABC1234'', civic, 1801)],
           cache_erros = [], cache_inline = [], clock = 1 + 1799\<rparr>
       = (Inr civic,
          \<lparr>cache_principal = [(''placa_ABC1234'', civic, 1801)],
             cache_erros = [], cache_inline = [], clock = 1 + 1799\<rparr>, [])"
proof -
  let ?st1 = "\<lparr>cache_principal = [(''placa_ABC1234'', civic, 1801)],
             cache_erros = [], cache_inline = [], clock = 1\<rparr>"
  have m1: "cache_getitem (cache_principal initial_state) (clock initial_state)
      (''placa_'' @ ''ABC1234'') = None"
    by (simp add: initial_state_def cache_getitem_def)
  have m2: "cache_getitem (cache_erros initial_state) (clock initial_state)
      (''error_'' @ ''ABC1234'') = None"
    by (simp add: initial_state_def cache_getitem_def)
  have cp: "consultar_placa found_env ''ABC1234'' initial_state
       = (Inr civic, ?st1,
          [Call_principal ''ABC1234'', Http_get ''https://api/ABC1234/tok''])"
    by code_simp
  have w: "(1799::nat) < (if erro_in civic = Inr True then 300 else 1800)"
    by (simp add: civic_def has_key_def)
  from cache_precedence[of initial_state "''ABC1234''" found_env] m1 m2 cp w
  have "consultar_placa all_down_env ''ABC1234'' (?st1\<lparr>clock := clock ?st1 + 1799\<rparr>)
      = (Inr civic, ?st1\<lparr>clock := clock ?st1 + 1799\<rparr>, [])"
    by blast
  with m1 m2 cp show ?thesis by simp
qed

section \<open>Properties of the entry points\<close>











lemma sample_strip: "strip ''A-B-C-1-2-3-4'' = ''A-B-C-1-2-3-4''"
  by code_simp

lemma sample_normalize: "normalize_plate ''A-B-C-1-2-3-4'' = ''ABC1234''"
  by code_simp

lemma sample_validate: "validate_plate ''ABC1234'' = (True, ''antiga'')"
  by code_simp

lemma show_result_reply:
  "show_result r ty = Inr x \<Longrightarrow> x = Error_shown r \<or> x = Result_shown r ty"
  by (cases r) (auto simp: show_result_def split: sum.splits if_splits)

lemma message_reply_cases:
  "message_reply outcome ty = Internal_error
   \<or> (\<exists>r. message_reply outcome ty = Error_shown r)
   \<or> (\<exists>r. message_reply outcome ty = Result_shown r ty)"
  using show_result_reply by (fastforce simp: message_reply_def split: sum.splits)

lemma inline_reply_cases:
  "(\<exists>x. inline_reply r ty = Raised x)
   \<or> inline_reply r ty = Error_shown r \<or> inline_reply r ty = Result_shown r ty"
  using show_result_reply by (fastforce simp: inline_reply_def split: sum.splits)

lemma message_reply_accepts:
  "message_reply outcome ty \<notin> {Nothing, Usage_hint, Length_rejected, Format_rejected}"
  using message_reply_cases[of outcome ty] by auto

lemma inline_reply_accepts:
  "inline_reply r ty \<notin> {Nothing, Usage_hint, Length_rejected, Format_rejected}"
  using inline_reply_cases[of r ty] by auto

text \<open>
  Claim C9. The handler of messages rejects by length exactly when the stripped raw text
  has fewer than 7 or more than 8 characters; the handler of inline queries rejects by
  length exactly when the normalized plate does not have 7 characters. The text
  \<open>A-B-C-1-2-3-4\<close> is rejected by length as a message, with no call of the validator,
  and is validated as \<open>antiga\<close> and looked up as an inline query: the answer is that of a
  result, or the message of a failed lookup.
\<close>

theorem entry_points_differ:
  "(fst (handle_message e (Some t) st) = Length_rejected
      \<longleftrightarrow> t \<noteq> [] \<and> (length (strip t) < 7 \<or> 8 < length (strip t)))
   \<and> (fst (handle_inline_query e q st) = Length_rejected
      \<longleftrightarrow> strip q \<noteq> [] \<and> length (normalize_plate (strip q)) \<noteq> 7)
   \<and> handle_message e (Some ''A-B-C-1-2-3-4'') st = (Length_rejected, st, [])
   \<and> (fst (handle_inline_query e ''A-B-C-1-2-3-4'' st) = Lookup_failed
       \<or> (\<exists>r. fst (handle_inline_query e ''A-B-C-1-2-3-4'' st) = inline_reply r ''antiga''))
   \<and> fst (handle_inline_query e ''A-B-C-1-2-3-4'' st)
       \<notin> {Nothing, Usage_hint, Length_rejected, Format_rejected}
   \<and> hd (snd (snd (handle_inline_query e ''A-B-C-1-2-3-4'' st))) = Call_validate ''ABC1234''"
proof (intro conjI)
  show "fst (handle_message e (Some t) st) = Length_rejected
      \<longleftrightarrow> t \<noteq> [] \<and> (length (strip t) < 7 \<or> 8 < length (strip t))"
    using message_reply_accepts
    by (auto simp: handle_message_def Let_def split: prod.splits)
  show "fst (handle_inline_query e q st) = Length_rejected
      \<longleftrightarrow> strip q \<noteq> [] \<and> length (normalize_plate (strip q)) \<noteq> 7"
    using inline_reply_accepts
    by (auto simp: handle_inline_query_def Let_def
        split: prod.splits option.splits sum.splits bool.splits)
  show "handle_message e (Some ''A-B-C-1-2-3-4'') st = (Length_rejected, st, [])"
    by (simp add: handle_message_def Let_def sample_strip)
  have q: "handle_inline_query e ''A-B-C-1-2-3-4'' st =
      (case cache_getitem (cache_inline st) (clock st) ''inline_ABC1234'' of
         Some resultado \<Rightarrow> (inline_reply resultado ''antiga'', st, [Call_validate ''ABC1234''])
       | None \<Rightarrow>
           (case consultar_placa e ''ABC1234'' st of
              (Inl x, st', evs) \<Rightarrow> (Lookup_failed, st', Call_validate ''ABC1234'' # evs)
            | (Inr resultado, st', evs) \<Rightarrow>
                (case erro_in resultado of
                   Inl x \<Rightarrow> (Lookup_failed, st', Call_validate ''ABC1234'' # evs)
                 | Inr True \<Rightarrow>
                     (inline_reply resultado ''antiga'', st', Call_validate ''ABC1234'' # evs)
                 | Inr False \<Rightarrow>
                     (inline_reply resultado ''antiga'',
                      set_inline st' ''inline_ABC1234'' resultado,
                      Call_validate ''ABC1234'' # evs))))"
    by (simp add: handle_inline_query_def Let_def sample_strip sample_normalize sample_validate
        split: option.splits prod.splits sum.splits bool.splits)
  show "hd (snd (snd (handle_inline_query e ''A-B-C-1-2-3-4'' st))) = Call_validate ''ABC1234''"
    unfolding q by (simp split: option.splits prod.splits sum.splits bool.splits)
  have d: "fst (handle_inline_query e ''A-B-C-1-2-3-4'' st) = Lookup_failed
       \<or> (\<exists>r. fst (handle_inline_query e ''A-B-C-1-2-3-4'' st) = inline_reply r ''antiga'')"
    unfolding q by (auto split: option.splits prod.splits sum.splits bool.splits)
  show "fst (handle_inline_query e ''A-B-C-1-2-3-4'' st) = Lookup_failed
       \<or> (\<exists>r. fst (handle_inline_query e ''A-B-C-1-2-3-4'' st) = inline_reply r ''antiga'')"
    by (rule d)
  from d show "fst (handle_inline_query e ''A-B-C-1-2-3-4'' st)
       \<notin> {Nothing, Usage_hint, Length_rejected, Format_rejected}"
  proof
    assume "fst (handle_inline_query e ''A-B-C-1-2-3-4'' st) = Lookup_failed"
    then show ?thesis by simp
  next
    assume "\<exists>r. fst (handle_inline_query e ''A-B-C-1-2-3-4'' st) = inline_reply r ''antiga''"
    then obtain r where "fst (handle_inline_query e ''A-B-C-1-2-3-4'' st)
        = inline_reply r ''antiga''" by blast
    then show ?thesis using inline_reply_accepts[of r "''antiga''"] by simp
  qed
qed

text \<open>
  Claim C6, as stated, fails: the raw text \<open>AB#1D23\<close> has 7 characters, so the length
  check of the message handler lets it through; the validator is called on \<open>AB1D23\<close> and
  the answer is the message of the format check.
\<close>

theorem short_plate_passes_length_gate:
  "length (strip ''AB#1D23'') = 7
   \<and> normalize_plate (strip ''AB#1D23'') = ''AB1D23''
   \<and> fst (handle_message found_env (Some ''AB#1D23'') initial_state) \<noteq> Length_rejected
   \<and> handle_message found_env (Some ''AB#1D23'') initial_state
       = (Format_rejected, initial_state, [Call_validate ''AB1D23''])"
  by code_simp

text \<open>
  Claim C6, amended. The raw text \<open>AB#1D23\<close> has 7 characters and normalizes to the 6
  characters \<open>AB1D23\<close>. The message handler, whose length check reads the raw text, lets
  it through, calls the validator, which answers \<open>(False, invalid)\<close>, and rejects the text
  with the message of the format check, with no access to a cache or to a source. The
  handler of inline queries, whose length check reads the normalized plate, rejects the
  same text by length, with no call of the validator.
\<close>

theorem short_plate_rejected_by_format:
  "length (strip ''AB#1D23'') = 7
   \<and> normalize_plate (strip ''AB#1D23'') = ''AB1D23''
   \<and> validate_plate ''AB1D23'' = (False, ''invalid'')
   \<and> handle_message e (Some ''AB#1D23'') st = (Format_rejected, st, [Call_validate ''AB1D23''])
   \<and> handle_inline_query e ''AB#1D23'' st = (Length_rejected, st, [])"
proof -
  have s: "strip ''AB#1D23'' = ''AB#1D23''" by code_simp
  have n: "normalize_plate ''AB#1D23'' = ''AB1D23''" by code_simp
  have v: "validate_plate ''AB1D23'' = (False, ''invalid'')" by code_simp
  have m: "handle_message e (Some ''AB#1D23'') st
      = (Format_rejected, st, [Call_validate ''AB1D23''])"
    by (simp add: handle_message_def Let_def s n v)
  have i: "handle_inline_query e ''AB#1D23'' st = (Length_rejected, st, [])"
    by (simp add: handle_inline_query_def Let_def s n)
  from s n v m i show ?thesis by simp
qed

end
